theory Spec2Isabelle
  imports Main "HOL-Library.Word"
begin

unbundle bit_operations_syntax

section \<open>The code generator\<close>

subsection \<open>The MD5 digest behind \<open>crypto.createHash('md5')\<close>\<close>

text \<open>
  \<open>generateShortCode\<close> (index.ts, lines 50 to 53) calls
  \<open>crypto.createHash('md5').update(url).digest('hex')\<close>. Node's hash object is MD5 as
  RFC 1321 defines it; the algorithm is written out here over 32-bit words so that the
  digest of a concrete URL can be computed. A string is its sequence of UTF-8 bytes
  (\<open>update\<close> encodes a string argument as UTF-8), so an ASCII URL is one \<open>char\<close> per
  character.
\<close>

type_synonym u32 = "32 word"
type_synonym byte = "8 word"

definition md5_s :: "nat list" where
  "md5_s = [7, 12, 17, 22, 7, 12, 17, 22, 7, 12, 17, 22, 7, 12, 17, 22,
            5, 9, 14, 20, 5, 9, 14, 20, 5, 9, 14, 20, 5, 9, 14, 20,
            4, 11, 16, 23, 4, 11, 16, 23, 4, 11, 16, 23, 4, 11, 16, 23,
            6, 10, 15, 21, 6, 10, 15, 21, 6, 10, 15, 21, 6, 10, 15, 21]"

definition md5_K :: "u32 list" where
  "md5_K = [0xd76aa478, 0xe8c7b756, 0x242070db, 0xc1bdceee,
            0xf57c0faf, 0x4787c62a, 0xa8304613, 0xfd469501,
            0x698098d8, 0x8b44f7af, 0xffff5bb1, 0x895cd7be,
            0x6b901122, 0xfd987193, 0xa679438e, 0x49b40821,
            0xf61e2562, 0xc040b340, 0x265e5a51, 0xe9b6c7aa,
            0xd62f105d, 0x02441453, 0xd8a1e681, 0xe7d3fbc8,
            0x21e1cde6, 0xc33707d6, 0xf4d50d87, 0x455a14ed,
            0xa9e3e905, 0xfcefa3f8, 0x676f02d9, 0x8d2a4c8a,
            0xfffa3942, 0x8771f681, 0x6d9d6122, 0xfde5380c,
            0xa4beea44, 0x4bdecfa9, 0xf6bb4b60, 0xbebfbc70,
            0x289b7ec6, 0xeaa127fa, 0xd4ef3085, 0x04881d05,
            0xd9d4d039, 0xe6db99e5, 0x1fa27cf8, 0xc4ac5665,
            0xf4292244, 0x432aff97, 0xab9423a7, 0xfc93a039,
            0x655b59c3, 0x8f0ccc92, 0xffeff47d, 0x85845dd1,
            0x6fa87e4f, 0xfe2ce6e0, 0xa3014314, 0x4e0811a1,
            0xf7537e82, 0xbd3af235, 0x2ad7d2bb, 0xeb86d391]"

definition rotl32 :: "u32 \<Rightarrow> nat \<Rightarrow> u32" where
  "rotl32 x n = push_bit n x OR drop_bit (32 - n) x"

text \<open>
  Padding: the byte \<open>0x80\<close>, zero bytes up to 56 modulo 64, then the message length in
  bits as a 64-bit little-endian integer.
\<close>

definition md5_pad :: "byte list \<Rightarrow> byte list" where
  "md5_pad m =
     (let n = length m;
          z = (119 - n mod 64) mod 64;
          bits = (of_nat (8 * n) :: 64 word)
      in m @ [0x80] @ replicate z 0 @ map (\<lambda>i. ucast (drop_bit (8 * i) bits)) [0..<8])"

definition le32 :: "byte list \<Rightarrow> u32" where
  "le32 bs = foldr (\<lambda>b w. ucast b OR push_bit 8 w) bs 0"

fun chunks :: "nat \<Rightarrow> nat \<Rightarrow> 'a list \<Rightarrow> 'a list list" where
  "chunks 0 k xs = []"
| "chunks (Suc n) k xs = take k xs # chunks n k (drop k xs)"

definition md5_round ::
  "u32 list \<Rightarrow> (u32 \<times> u32 \<times> u32 \<times> u32) \<Rightarrow> nat \<Rightarrow> (u32 \<times> u32 \<times> u32 \<times> u32)" where
  "md5_round M st i =
     (case st of (a, b, c, d) \<Rightarrow>
        let (f, g) =
              (if i < 16 then ((b AND c) OR (NOT b AND d), i)
               else if i < 32 then ((d AND b) OR (NOT d AND c), (5 * i + 1) mod 16)
               else if i < 48 then (b XOR c XOR d, (3 * i + 5) mod 16)
               else (c XOR (b OR NOT d), (7 * i) mod 16));
            f' = f + a + md5_K ! i + M ! g
        in (d, b + rotl32 f' (md5_s ! i), b, c))"

definition md5_block ::
  "(u32 \<times> u32 \<times> u32 \<times> u32) \<Rightarrow> byte list \<Rightarrow> (u32 \<times> u32 \<times> u32 \<times> u32)" where
  "md5_block h blk =
     (let M = map le32 (chunks 16 4 blk) in
      case h of (a0, b0, c0, d0) \<Rightarrow>
      case foldl (md5_round M) h [0..<64] of (a, b, c, d) \<Rightarrow>
        (a0 + a, b0 + b, c0 + c, d0 + d))"

definition md5_digest :: "byte list \<Rightarrow> byte list" where
  "md5_digest m =
     (let p = md5_pad m in
      case foldl md5_block (0x67452301, 0xefcdab89, 0x98badcfe, 0x10325476)
             (chunks (length p div 64) 64 p) of
        (a, b, c, d) \<Rightarrow>
          concat (map (\<lambda>w. map (\<lambda>i. ucast (drop_bit (8 * i) w)) [0..<4]) [a, b, c, d]))"

definition hex_digit :: "nat \<Rightarrow> char" where
  "hex_digit n = ''0123456789abcdef'' ! n"

definition hex :: "byte list \<Rightarrow> string" where
  "hex bs = concat (map (\<lambda>b. [hex_digit (unat b div 16), hex_digit (unat b mod 16)]) bs)"

definition utf8_bytes :: "string \<Rightarrow> byte list" where
  "utf8_bytes s = map of_char s"

definition md5_hex :: "string \<Rightarrow> string" where
  "md5_hex s = hex (md5_digest (utf8_bytes s))"

subsection \<open>\<open>generateShortCode\<close>\<close>

text \<open>
  \<open>String.prototype.substring(start, end)\<close>: both indices are clamped to the range from
  0 to the length of the string and swapped when the first exceeds the second. The
  \<open>number\<close> arguments are integers here.
\<close>

definition substring :: "string \<Rightarrow> int \<Rightarrow> int \<Rightarrow> string" where
  "substring s start fin =
     (let len = int (length s);
          final_start = min (max start 0) len;
          final_end = min (max fin 0) len;
          from = min final_start final_end;
          to = max final_start final_end
      in take (nat (to - from)) (drop (nat from) s))"

definition generateShortCode :: "string \<Rightarrow> int \<Rightarrow> string" where
  "generateShortCode url len =
     (let hash = md5_hex url in substring hash 0 len)"

section \<open>The store\<close>

text \<open>
  The table \<open>urls\<close> of \<open>initializeDatabase\<close> (index.ts, lines 25 to 39). A row carries
  the seven columns; \<open>alias\<close> and \<open>last_accessed\<close> are nullable. \<open>id SERIAL\<close> draws from
  the sequence \<open>urls_id_seq\<close>, whose last value is part of the store. Rows are kept in
  the order in which a query returns them: SQL fixes none without \<open>ORDER BY\<close>, and
  the order matters only to \<open>rows[0]\<close> when several rows match. Timestamps are natural
  numbers. The store is taken to be reachable: a statement fails only for the reasons
  written out below, and a statement that fails changes no row.
\<close>

record urls_row =
  row_id :: nat
  original_url :: string
  short_code :: string
  row_alias :: "string option"
  created_at :: nat
  access_count :: int
  last_accessed :: "nat option"

record database =
  urls :: "urls_row list"
  urls_id_seq :: nat

definition init_db :: database where
  "init_db = \<lparr>urls = [], urls_id_seq = 0\<rparr>"

datatype db_error =
    CharacterNotInRepertoire
  | StringDataRightTruncation
  | SequenceGeneratorLimitExceeded
  | UniqueViolation
  | ProgramLimitExceeded
  | NumericValueOutOfRange

text \<open>
  \<open>INTEGER\<close> is a signed 32-bit column, and \<open>SERIAL\<close> is an \<open>INTEGER\<close> column fed by a
  sequence with the same largest value: a value beyond this bound is an error.
\<close>

definition INTEGER_MAX :: int where
  "INTEGER_MAX = 2147483647"

text \<open>
  A text parameter is sent as the UTF-8 bytes of the JavaScript string. The server
  refuses a text value that contains the byte 0 (the character U+0000); every other
  JavaScript string arrives as valid text.
\<close>

definition text_ok :: "string \<Rightarrow> bool" where
  "text_ok s \<longleftrightarrow> CHR 0x00 \<notin> set s"

text \<open>
  \<open>VARCHAR(n)\<close> counts characters, not bytes: in UTF-8 every byte but a continuation
  byte (\<open>10xxxxxx\<close>) starts a character. A value assigned to a \<open>VARCHAR(n)\<close> column that
  has more than \<open>n\<close> characters is an error, unless the characters beyond the first \<open>n\<close>
  are all spaces: then the first \<open>n\<close> characters are stored.
\<close>

definition utf8_continuation :: "char \<Rightarrow> bool" where
  "utf8_continuation c \<longleftrightarrow> (of_char c :: nat) div 64 = 2"

definition utf8_length :: "string \<Rightarrow> nat" where
  "utf8_length s = length (filter (\<lambda>c. \<not> utf8_continuation c) s)"

fun utf8_take :: "nat \<Rightarrow> string \<Rightarrow> string" where
  "utf8_take n [] = []"
| "utf8_take n (c # cs) =
     (if utf8_continuation c then c # utf8_take n cs
      else (case n of 0 \<Rightarrow> [] | Suc m \<Rightarrow> c # utf8_take m cs))"

definition varchar :: "nat \<Rightarrow> string \<Rightarrow> db_error + string" where
  "varchar n s =
     (if utf8_length s \<le> n then Inr s
      else if list_all (\<lambda>c. c = CHR '' '') (drop (length (utf8_take n s)) s)
           then Inr (utf8_take n s)
           else Inl StringDataRightTruncation)"

definition varchar_null :: "nat \<Rightarrow> string option \<Rightarrow> db_error + string option" where
  "varchar_null n v =
     (case v of
        None \<Rightarrow> Inr None
      | Some s \<Rightarrow> (case varchar n s of Inl err \<Rightarrow> Inl err | Inr s' \<Rightarrow> Inr (Some s')))"

text \<open>\<open>SELECT short_code, alias FROM urls WHERE original_url = $1\<close>\<close>

definition select_by_original_url :: "string \<Rightarrow> database \<Rightarrow> db_error + urls_row list" where
  "select_by_original_url url db =
     (if text_ok url then Inr (filter (\<lambda>r. original_url r = url) (urls db))
      else Inl CharacterNotInRepertoire)"

text \<open>\<open>SELECT id FROM urls WHERE alias = $1\<close>\<close>

definition select_by_alias :: "string \<Rightarrow> database \<Rightarrow> db_error + urls_row list" where
  "select_by_alias a db =
     (if text_ok a then Inr (filter (\<lambda>r. row_alias r = Some a) (urls db))
      else Inl CharacterNotInRepertoire)"

text \<open>\<open>SELECT ... FROM urls WHERE alias = $1 OR short_code = $1\<close>\<close>

definition select_by_alias_or_code :: "string \<Rightarrow> database \<Rightarrow> db_error + urls_row list" where
  "select_by_alias_or_code code db =
     (if text_ok code
      then Inr (filter (\<lambda>r. row_alias r = Some code \<or> short_code r = code) (urls db))
      else Inl CharacterNotInRepertoire)"

text \<open>
  \<open>INSERT INTO urls (original_url, short_code, alias) VALUES ($1, $2, $3) RETURNING ...\<close>.
  The statement fails, in this order:
  \<^item> when a parameter is not valid text;
  \<^item> when \<open>short_code\<close> does not fit \<open>VARCHAR(10)\<close> or \<open>alias\<close> does not fit
    \<open>VARCHAR(30)\<close>;
  \<^item> when the sequence of \<open>id SERIAL\<close> has handed out its largest value;
  \<^item> when the primary key, the \<open>UNIQUE\<close> column \<open>short_code\<close> or a non-null value of
    the \<open>UNIQUE\<close> column \<open>alias\<close> is already in the table;
  \<^item> when the entry for \<open>original_url\<close> is too large for the index
    \<open>idx_original_url\<close>.
  Whether an entry fits the index depends on how far the server compresses the value;
  that test is the parameter \<open>index_row_fits\<close>. The sequence keeps the value it handed
  out when the statement fails later. Otherwise the row is appended: the id comes from
  the sequence, \<open>created_at\<close> defaults to the current time, \<open>access_count\<close> to 0 and
  \<open>last_accessed\<close> to null.
\<close>

definition stored_row ::
  "nat \<Rightarrow> nat \<Rightarrow> string \<Rightarrow> string \<Rightarrow> string option \<Rightarrow> urls_row" where
  "stored_row i now url code al =
     \<lparr>row_id = i, original_url = url, short_code = code, row_alias = al,
      created_at = now, access_count = 0, last_accessed = None\<rparr>"

definition insert_url ::
  "(string \<Rightarrow> bool) \<Rightarrow> nat \<Rightarrow> string \<Rightarrow> string \<Rightarrow> string option \<Rightarrow> database
     \<Rightarrow> (db_error + urls_row) \<times> database" where
  "insert_url index_row_fits now url code al db =
     (if \<not> text_ok url \<or> \<not> text_ok code
         \<or> (case al of None \<Rightarrow> False | Some a \<Rightarrow> \<not> text_ok a)
      then (Inl CharacterNotInRepertoire, db)
      else
        (case varchar 10 code of
           Inl err \<Rightarrow> (Inl err, db)
         | Inr code' \<Rightarrow>
             (case varchar_null 30 al of
                Inl err \<Rightarrow> (Inl err, db)
              | Inr al' \<Rightarrow>
                  if INTEGER_MAX \<le> int (urls_id_seq db)
                  then (Inl SequenceGeneratorLimitExceeded, db)
                  else
                    (let i = urls_id_seq db + 1;
                         db1 = db\<lparr>urls_id_seq := i\<rparr>;
                         r = stored_row i now url code' al'
                     in if i \<in> set (map row_id (urls db))
                           \<or> code' \<in> set (map short_code (urls db))
                           \<or> (al' \<noteq> None \<and> al' \<in> set (map row_alias (urls db)))
                        then (Inl UniqueViolation, db1)
                        else if \<not> index_row_fits url
                        then (Inl ProgramLimitExceeded, db1)
                        else (Inr r, db1\<lparr>urls := urls db @ [r]\<rparr>)))))"

text \<open>
  \<open>UPDATE urls SET access_count = access_count + 1, last_accessed = CURRENT_TIMESTAMP
  WHERE id = $1\<close>: the addition is on \<open>INTEGER\<close>, so the statement fails, changing
  nothing, when a row to update already holds the largest value.
\<close>

definition bump_access :: "nat \<Rightarrow> urls_row \<Rightarrow> urls_row" where
  "bump_access now r = r\<lparr>access_count := access_count r + 1, last_accessed := Some now\<rparr>"

definition update_access :: "nat \<Rightarrow> nat \<Rightarrow> database \<Rightarrow> (db_error + unit) \<times> database" where
  "update_access now i db =
     (if \<exists>r \<in> set (urls db). row_id r = i \<and> access_count r + 1 > INTEGER_MAX
      then (Inl NumericValueOutOfRange, db)
      else (Inr (),
            db\<lparr>urls := map (\<lambda>r. if row_id r = i then bump_access now r else r) (urls db)\<rparr>))"

section \<open>The request handlers\<close>

text \<open>
  A response is \<open>res.status(n).json(body)\<close> or \<open>res.redirect(url)\<close>. The body of the
  statistics response is the selected row, which has every column but the id. In each
  handler an error of a statement is caught by the \<open>catch\<close> block, which answers 500
  \<open>Server error\<close>.
\<close>

record stats_row =
  stats_original_url :: string
  stats_short_code :: string
  stats_alias :: "string option"
  stats_created_at :: nat
  stats_access_count :: int
  stats_last_accessed :: "nat option"

datatype body =
    ShortUrl string string
  | ShortUrlMessage string string string
  | Error string
  | Stats stats_row

datatype response = Json nat body | Redirect string

text \<open>
  \<open>a || b\<close> and \<open>if (a)\<close> on a string that may be null or undefined: the empty string
  is falsy too.
\<close>

definition truthy :: "string option \<Rightarrow> bool" where
  "truthy a = (case a of None \<Rightarrow> False | Some s \<Rightarrow> s \<noteq> [])"

definition or_else :: "string option \<Rightarrow> string \<Rightarrow> string" where
  "or_else a b = (case a of None \<Rightarrow> b | Some s \<Rightarrow> if s = [] then b else s)"

definition or_null :: "string option \<Rightarrow> string option" where
  "or_null a = (if truthy a then a else None)"

subsection \<open>\<open>POST /shorten\<close>\<close>

text \<open>
  The body of the handler from the point where the request has passed validation
  (index.ts, lines 84 to 136): \<open>url\<close> is a string that parses as a URL, \<open>alias\<close> is
  undefined or a string whose length the validator has checked.
  \<open>baseUrl\<close> is \<open>req.protocol://req.get('host')\<close>. The
  handler awaits three statements; \<open>post_shorten_steps\<close> runs each against the store as
  it is at that moment (\<open>db0\<close> at the lookup by URL, \<open>db1\<close> at the lookup by alias,
  \<open>db2\<close> at the insert), since statements of other requests may run in between, and
  returns the response with the store after its last statement. \<open>post_shorten\<close> is the
  handler running alone.
\<close>

definition existing_url_response ::
  "string \<Rightarrow> string \<Rightarrow> database \<Rightarrow> db_error + response option" where
  "existing_url_response baseUrl url db =
     (case select_by_original_url url db of
        Inl err \<Rightarrow> Inl err
      | Inr [] \<Rightarrow> Inr None
      | Inr (row # _) \<Rightarrow>
          let existingAlias = row_alias row;
              path = or_else existingAlias (short_code row)
          in Inr (Some (Json 200 (ShortUrlMessage url (baseUrl @ ''/'' @ path)
                                    ''URL already exists''))))"

definition alias_taken_response :: "string option \<Rightarrow> database \<Rightarrow> db_error + response option" where
  "alias_taken_response al db =
     (case al of
        None \<Rightarrow> Inr None
      | Some a \<Rightarrow>
          if a = [] then Inr None
          else (case select_by_alias a db of
                  Inl err \<Rightarrow> Inl err
                | Inr [] \<Rightarrow> Inr None
                | Inr (_ # _) \<Rightarrow> Inr (Some (Json 409 (Error ''Alias already in use'')))))"

definition insert_response ::
  "(string \<Rightarrow> bool) \<Rightarrow> string \<Rightarrow> nat \<Rightarrow> string \<Rightarrow> string \<Rightarrow> string option \<Rightarrow> database
     \<Rightarrow> response \<times> database" where
  "insert_response index_row_fits baseUrl now url shortCode al db =
     (case insert_url index_row_fits now url shortCode (or_null al) db of
        (Inl err, db') \<Rightarrow> (Json 500 (Error ''Server error''), db')
      | (Inr _, db') \<Rightarrow>
          let path = or_else al shortCode
          in (Json 201 (ShortUrl url (baseUrl @ ''/'' @ path)), db'))"

definition post_shorten_steps ::
  "(string \<Rightarrow> bool) \<Rightarrow> string \<Rightarrow> nat \<Rightarrow> string \<Rightarrow> string option
     \<Rightarrow> database \<Rightarrow> database \<Rightarrow> database \<Rightarrow> response \<times> database" where
  "post_shorten_steps index_row_fits baseUrl now url al db0 db1 db2 =
     (let shortCode = generateShortCode url 7 in
      case existing_url_response baseUrl url db0 of
        Inl err \<Rightarrow> (Json 500 (Error ''Server error''), db0)
      | Inr (Some res) \<Rightarrow> (res, db0)
      | Inr None \<Rightarrow>
          (case alias_taken_response al db1 of
             Inl err \<Rightarrow> (Json 500 (Error ''Server error''), db1)
           | Inr (Some res) \<Rightarrow> (res, db1)
           | Inr None \<Rightarrow> insert_response index_row_fits baseUrl now url shortCode al db2))"

definition post_shorten ::
  "(string \<Rightarrow> bool) \<Rightarrow> string \<Rightarrow> nat \<Rightarrow> string \<Rightarrow> string option \<Rightarrow> database
     \<Rightarrow> response \<times> database" where
  "post_shorten index_row_fits baseUrl now url al db =
     post_shorten_steps index_row_fits baseUrl now url al db db db"

subsection \<open>\<open>GET /:code\<close>\<close>

text \<open>index.ts, lines 140 to 169: the lookup, then the update of the first row found.\<close>

definition get_code :: "nat \<Rightarrow> string \<Rightarrow> database \<Rightarrow> response \<times> database" where
  "get_code now code db =
     (case select_by_alias_or_code code db of
        Inl err \<Rightarrow> (Json 500 (Error ''Server error''), db)
      | Inr [] \<Rightarrow> (Json 404 (Error ''Short URL not found''), db)
      | Inr (row # _) \<Rightarrow>
          (case update_access now (row_id row) db of
             (Inl err, db') \<Rightarrow> (Json 500 (Error ''Server error''), db')
           | (Inr _, db') \<Rightarrow> (Redirect (original_url row), db')))"

subsection \<open>\<open>GET /stats/:code\<close>\<close>

text \<open>index.ts, lines 172 to 196.\<close>

definition stats_of :: "urls_row \<Rightarrow> stats_row" where
  "stats_of r =
     \<lparr>stats_original_url = original_url r, stats_short_code = short_code r,
      stats_alias = row_alias r, stats_created_at = created_at r,
      stats_access_count = access_count r, stats_last_accessed = last_accessed r\<rparr>"

definition get_stats :: "string \<Rightarrow> database \<Rightarrow> response \<times> database" where
  "get_stats code db =
     (case select_by_alias_or_code code db of
        Inl err \<Rightarrow> (Json 500 (Error ''Server error''), db)
      | Inr [] \<Rightarrow> (Json 404 (Error ''URL not found''), db)
      | Inr (row # _) \<Rightarrow> (Json 200 (Stats (stats_of row)), db))"

subsection \<open>The three routes together\<close>



section \<open>Invariants of the store\<close>

text \<open>
  What the table definition enforces: the primary key, the two \<open>UNIQUE\<close> columns (null
  aliases do not clash), the range of \<open>INTEGER\<close>, and that every stored text is valid
  text.
\<close>

definition constraints_ok :: "database \<Rightarrow> bool" where
  "constraints_ok db \<longleftrightarrow>
     distinct (map row_id (urls db))
     \<and> distinct (map short_code (urls db))
     \<and> distinct (filter (\<lambda>a. a \<noteq> None) (map row_alias (urls db)))
     \<and> (\<forall>r \<in> set (urls db). - INTEGER_MAX - 1 \<le> access_count r \<and> access_count r \<le> INTEGER_MAX)
     \<and> (\<forall>r \<in> set (urls db). text_ok (original_url r) \<and> text_ok (short_code r)
            \<and> (\<forall>a. row_alias r = Some a \<longrightarrow> text_ok a))"

text \<open>
  What the handlers keep true in addition, starting from the empty table: ids come from
  the sequence, a short code is the code generated for its URL, a stored alias is never
  the empty string, and an access count is never negative.
\<close>

definition store_inv :: "database \<Rightarrow> bool" where
  "store_inv db \<longleftrightarrow>
     constraints_ok db
     \<and> (\<forall>r \<in> set (urls db). row_id r \<le> urls_id_seq db)
     \<and> (\<forall>r \<in> set (urls db). short_code r = generateShortCode (original_url r) 7)
     \<and> (\<forall>r \<in> set (urls db). row_alias r \<noteq> Some [])
     \<and> (\<forall>r \<in> set (urls db). 0 \<le> access_count r)"

text \<open>
  The path that \<open>POST /shorten\<close> answers for a stored record, an alias argument that
  the column \<open>alias\<close> stores as it is, and a run of \<open>n\<close> successive \<open>GET /:code\<close>
  requests for one key.
\<close>

definition alias_fits :: "string option \<Rightarrow> bool" where
  "alias_fits al \<longleftrightarrow> (case al of None \<Rightarrow> True | Some a \<Rightarrow> utf8_length a \<le> 30)"

definition row_path :: "urls_row \<Rightarrow> string" where
  "row_path r = (case row_alias r of
                   None \<Rightarrow> short_code r
                 | Some a \<Rightarrow> if a = [] then short_code r else a)"

fun get_code_times :: "nat \<Rightarrow> nat \<Rightarrow> string \<Rightarrow> database \<Rightarrow> database" where
  "get_code_times 0 now code db = db"
| "get_code_times (Suc n) now code db = get_code_times n now code (snd (get_code now code db))"

section \<open>Example stores\<close>

text \<open>
  Stores used to run the handlers on concrete requests. \<open>db_a\<close> holds one record, for
  \<open>https://example.com/a\<close>; \<open>db_ab\<close> adds a record for \<open>https://example.com/b\<close> under
  the alias \<open>promo\<close>; in \<open>db_max\<close> the record of \<open>db_a\<close> has been resolved
  2147483647 times; in \<open>db_sa\<close> the record for \<open>https://example.com/b\<close> came first and
  took as its alias the short code of \<open>https://example.com/a\<close>; \<open>db_c\<close> holds one
  record, for \<open>https://example.com/1548\<close>; \<open>db_pa\<close> is \<open>db_sa\<close> with the alias
  \<open>promo\<close> in place of \<open>cd69b81\<close>. \<open>fits_short\<close> stands for the server's test
  of the index entry in these runs: a URL of a few dozen bytes is far below the limit of
  the index.
\<close>

definition fits_short :: "string \<Rightarrow> bool" where
  "fits_short url \<longleftrightarrow> length url \<le> 512"

definition row_a :: urls_row where
  "row_a = \<lparr>row_id = 1, original_url = ''https://example.com/a'', short_code = ''cd69b81'',
            row_alias = None, created_at = 100, access_count = 0, last_accessed = None\<rparr>"

definition row_b :: urls_row where
  "row_b = \<lparr>row_id = 2, original_url = ''https://example.com/b'', short_code = ''43cc12e'',
            row_alias = Some ''promo'', created_at = 200, access_count = 0, last_accessed = None\<rparr>"

definition db_a :: database where
  "db_a = \<lparr>urls = [row_a], urls_id_seq = 1\<rparr>"

definition db_ab :: database where
  "db_ab = \<lparr>urls = [row_a, row_b], urls_id_seq = 2\<rparr>"

definition row_max :: urls_row where
  "row_max = row_a\<lparr>access_count := 2147483647, last_accessed := Some 900\<rparr>"

definition db_max :: database where
  "db_max = \<lparr>urls = [row_max], urls_id_seq = 1\<rparr>"

definition row_s :: urls_row where
  "row_s = \<lparr>row_id = 1, original_url = ''https://example.com/b'', short_code = ''43cc12e'',
            row_alias = Some ''cd69b81'', created_at = 100, access_count = 0,
            last_accessed = None\<rparr>"

definition row_a2 :: urls_row where
  "row_a2 = \<lparr>row_id = 2, original_url = ''https://example.com/a'', short_code = ''cd69b81'',
             row_alias = None, created_at = 200, access_count = 0, last_accessed = None\<rparr>"

definition db_s :: database where
  "db_s = \<lparr>urls = [row_s], urls_id_seq = 1\<rparr>"

definition db_sa :: database where
  "db_sa = \<lparr>urls = [row_s, row_a2], urls_id_seq = 2\<rparr>"

definition row_c :: urls_row where
  "row_c = \<lparr>row_id = 1, original_url = ''https://example.com/1548'', short_code = ''7f17b0c'',
            row_alias = None, created_at = 100, access_count = 0, last_accessed = None\<rparr>"

definition db_c :: database where
  "db_c = \<lparr>urls = [row_c], urls_id_seq = 1\<rparr>"

definition row_p :: urls_row where
  "row_p = \<lparr>row_id = 1, original_url = ''https://example.com/b'', short_code = ''43cc12e'',
            row_alias = Some ''promo'', created_at = 100, access_count = 0, last_accessed = None\<rparr>"

definition db_pa :: database where
  "db_pa = \<lparr>urls = [row_p, row_a2], urls_id_seq = 2\<rparr>"

text \<open>
  A key and a URL that contain the character U+0000: the path \<open>/%00\<close> gives the first
  as \<open>req.params.code\<close>, and \<open>new URL\<close> accepts the second.
\<close>

definition key_nul :: string where
  "key_nul = [CHR 0x00]"

definition url_nul :: string where
  "url_nul = ''https://example.com/'' @ [CHR 0x00]"

section \<open>Properties of the code generator\<close>

lemma length_md5_digest: "length (md5_digest m) = 16"
  by (simp add: md5_digest_def Let_def split: prod.splits)

lemma length_hex: "length (hex bs) = 2 * length bs"
  by (induction bs) (simp_all add: hex_def)

lemma length_md5_hex: "length (md5_hex s) = 32"
  by (simp add: md5_hex_def length_hex length_md5_digest)

lemma substring_from_0: "substring s 0 n = take (nat n) s"
  by (simp add: substring_def Let_def min_def max_def)

lemma generateShortCode_take: "generateShortCode url n = take (nat n) (md5_hex url)"
  by (simp add: generateShortCode_def substring_from_0)

subsection \<open>Digests of concrete URLs\<close>

text \<open>
  The digests of the URLs used below, computed from the definition. The last two URLs are
  different and share the first seven characters of their digests.
\<close>

lemma md5_hex_empty: "md5_hex '''' = ''d41d8cd98f00b204e9800998ecf8427e''"
  by code_simp

lemma md5_hex_url_a: "md5_hex ''https://example.com/a'' = ''cd69b81ea00cc2798797293cbc92d643''"
  by code_simp

lemma md5_hex_url_b: "md5_hex ''https://example.com/b'' = ''43cc12e82d91e0c52428768cbef58eb6''"
  by code_simp

lemma md5_hex_url_1548:
  "md5_hex ''https://example.com/1548'' = ''7f17b0c94bbebab2486c3c0d80accf15''"
  by code_simp

lemma md5_hex_url_2133:
  "md5_hex ''https://example.com/2133'' = ''7f17b0c95105019f4a7f8454c9228b59''"
  by code_simp

lemma short_code_empty: "generateShortCode '''' 7 = ''d41d8cd''"
  by (simp add: generateShortCode_take md5_hex_empty)

lemma short_code_url_a: "generateShortCode ''https://example.com/a'' 7 = ''cd69b81''"
  by (simp add: generateShortCode_take md5_hex_url_a)

lemma short_code_url_b: "generateShortCode ''https://example.com/b'' 7 = ''43cc12e''"
  by (simp add: generateShortCode_take md5_hex_url_b)

lemma short_code_collision:
  "generateShortCode ''https://example.com/1548'' 7 = ''7f17b0c''
   \<and> generateShortCode ''https://example.com/2133'' 7 = ''7f17b0c''"
  by (simp add: generateShortCode_take md5_hex_url_1548 md5_hex_url_2133)

subsection \<open>Short codes as text\<close>

text \<open>
  A short code consists of hexadecimal digits: it is valid text and, with its seven
  characters, fits \<open>VARCHAR(10)\<close>.
\<close>

lemma hex_digit_not_nul: "n < 16 \<Longrightarrow> CHR 0x00 \<noteq> hex_digit n"
proof -
  assume "n < 16"
  then have "n \<in> set [0..<16]" by simp
  then show ?thesis
    unfolding hex_digit_def upt_rec_numeral by (auto simp: nth_Cons')
qed

lemma hex_byte_not_nul:
  "CHR 0x00 \<noteq> hex_digit (unat (b :: byte) div 16)" "CHR 0x00 \<noteq> hex_digit (unat b mod 16)"
proof -
  have "unat b < 256" using unsigned_less [of b] by simp
  then have "unat b div 16 < 16" by simp
  then show "CHR 0x00 \<noteq> hex_digit (unat b div 16)" by (rule hex_digit_not_nul)
  show "CHR 0x00 \<noteq> hex_digit (unat b mod 16)" by (rule hex_digit_not_nul) simp
qed

lemma text_ok_hex: "text_ok (hex bs)"
  by (induction bs) (simp_all add: hex_def text_ok_def hex_byte_not_nul)

lemma text_ok_generateShortCode: "text_ok (generateShortCode url n)"
  using text_ok_hex [of "md5_digest (utf8_bytes url)"]
  by (auto simp: generateShortCode_take md5_hex_def text_ok_def dest: in_set_takeD)

lemma utf8_length_le: "utf8_length s \<le> length s"
  by (simp add: utf8_length_def)

lemma varchar_fits: "utf8_length s \<le> n \<Longrightarrow> varchar n s = Inr s"
  by (simp add: varchar_def)

lemma varchar_generateShortCode:
  "varchar 10 (generateShortCode url 7) = Inr (generateShortCode url 7)"
proof -
  have "length (generateShortCode url 7) = 7"
    by (simp add: generateShortCode_take length_md5_hex)
  with utf8_length_le [of "generateShortCode url 7"] show ?thesis
    by (simp add: varchar_fits)
qed

lemma utf8_length_take: "utf8_length (utf8_take n s) \<le> n"
  by (induction n s rule: utf8_take.induct) (auto simp: utf8_length_def split: nat.splits)

lemma set_utf8_take: "set (utf8_take n s) \<subseteq> set s"
  by (induction n s rule: utf8_take.induct) (auto split: nat.splits)

lemma utf8_take_nonempty: "s \<noteq> [] \<Longrightarrow> utf8_take (Suc n) s \<noteq> []"
  by (cases s) auto

lemma varchar_Inr:
  assumes "varchar (Suc n) s = Inr v"
  shows "utf8_length v \<le> Suc n" and "text_ok s \<Longrightarrow> text_ok v" and "s \<noteq> [] \<Longrightarrow> v \<noteq> []"
proof -
  from assms have v: "v = s \<and> utf8_length s \<le> Suc n \<or> v = utf8_take (Suc n) s"
    by (auto simp: varchar_def split: if_splits)
  then show "utf8_length v \<le> Suc n"
    using utf8_length_take [of "Suc n" s] by auto
  from v show "text_ok v" if "text_ok s"
    using that set_utf8_take [of "Suc n" s] by (auto simp: text_ok_def)
  from v show "v \<noteq> []" if "s \<noteq> []"
    using that utf8_take_nonempty [of s n] by auto
qed

section \<open>Properties of the store operations\<close>

lemma filter_at_most_one:
  "distinct (map f xs) \<Longrightarrow> (\<forall>x \<in> set xs. P x \<longrightarrow> f x = c) \<Longrightarrow> length (filter P xs) \<le> 1"
proof (induction xs)
  case Nil
  then show ?case by simp
next
  case (Cons x xs)
  show ?case
  proof (cases "P x")
    case True
    with Cons.prems have "f x = c" and "c \<notin> f ` set xs" by auto
    have "\<not> P y" if "y \<in> set xs" for y
    proof
      assume "P y"
      with Cons.prems(2) that have "f y = c" by simp
      with that \<open>c \<notin> f ` set xs\<close> show False by (metis imageI)
    qed
    then have "filter P xs = []"
      by (simp add: filter_empty_conv)
    with True show ?thesis by simp
  next
    case False
    with Cons show ?thesis by simp
  qed
qed

lemma filter_ConsD: "filter P xs = y # ys \<Longrightarrow> y \<in> set xs \<and> P y"
  by (metis filter_eq_ConsD in_set_conv_decomp)

lemma filter_eq_single:
  "distinct xs \<Longrightarrow> r \<in> set xs \<Longrightarrow> filter (\<lambda>x. x = r) xs = [r]"
  by (induction xs) (auto simp: filter_empty_conv)

text \<open>
  The first row in a table that satisfies a condition is the first row of the selection,
  and a table with a row that satisfies the condition has a first such row.
\<close>

lemma filter_first:
  "\<forall>x \<in> set pre. \<not> P x \<Longrightarrow> P row \<Longrightarrow> filter P (pre @ row # post) = row # filter P post"
  by (simp add: filter_empty_conv)

lemma first_match:
  "r \<in> set xs \<Longrightarrow> P r \<Longrightarrow>
     \<exists>pre row post. xs = pre @ row # post \<and> P row \<and> (\<forall>x \<in> set pre. \<not> P x)"
proof (induction xs)
  case Nil
  then show ?case by simp
next
  case (Cons x xs)
  show ?case
  proof (cases "P x")
    case True
    then have "x # xs = [] @ x # xs \<and> P x \<and> (\<forall>y \<in> set []. \<not> P y)" by simp
    then show ?thesis by blast
  next
    case False
    with Cons.prems have "r \<in> set xs" by auto
    from Cons.IH [OF this Cons.prems(2)]
    obtain pre row post where "xs = pre @ row # post" "P row" "\<forall>y \<in> set pre. \<not> P y"
      by blast
    with False have "x # xs = (x # pre) @ row # post \<and> P row \<and> (\<forall>y \<in> set (x # pre). \<not> P y)"
      by simp
    then show ?thesis by blast
  qed
qed

text \<open>What the statements return, by cases.\<close>

lemma select_by_original_url_Inr:
  "select_by_original_url url db = Inr rows \<longleftrightarrow>
     text_ok url \<and> rows = filter (\<lambda>r. original_url r = url) (urls db)"
  by (auto simp: select_by_original_url_def)

lemma select_by_alias_Inr:
  "select_by_alias a db = Inr rows \<longleftrightarrow>
     text_ok a \<and> rows = filter (\<lambda>r. row_alias r = Some a) (urls db)"
  by (auto simp: select_by_alias_def)


lemma select_by_alias_or_code_Inl:
  "\<not> text_ok code \<Longrightarrow> select_by_alias_or_code code db = Inl CharacterNotInRepertoire"
  by (simp add: select_by_alias_or_code_def)

lemma select_by_alias_or_code_Nil:
  "text_ok code \<Longrightarrow>
     select_by_alias_or_code code db = Inr [] \<longleftrightarrow>
       (\<forall>r \<in> set (urls db). row_alias r \<noteq> Some code \<and> short_code r \<noteq> code)"
  by (auto simp: select_by_alias_or_code_def filter_empty_conv)


lemma select_by_alias_or_code_first:
  assumes "text_ok code" and "urls db = pre @ row # post"
      and "\<forall>x \<in> set pre. row_alias x \<noteq> Some code \<and> short_code x \<noteq> code"
      and "row_alias row = Some code \<or> short_code row = code"
  shows "\<exists>rest. select_by_alias_or_code code db = Inr (row # rest)"
  using assms by (simp add: select_by_alias_or_code_def filter_empty_conv)

lemma insert_url_cases:
  assumes "insert_url fits now url code al db = (res, db')"
  shows "(\<exists>e. res = Inl e \<and> (db' = db \<or> db' = db\<lparr>urls_id_seq := urls_id_seq db + 1\<rparr>))
       \<or> (\<exists>code' al'.
             varchar 10 code = Inr code' \<and> varchar_null 30 al = Inr al'
             \<and> res = Inr (stored_row (urls_id_seq db + 1) now url code' al')
             \<and> db' = \<lparr>urls = urls db @ [stored_row (urls_id_seq db + 1) now url code' al'],
                       urls_id_seq = urls_id_seq db + 1\<rparr>
             \<and> text_ok url \<and> text_ok code \<and> (\<forall>a. al = Some a \<longrightarrow> text_ok a)
             \<and> int (urls_id_seq db) < INTEGER_MAX
             \<and> urls_id_seq db + 1 \<notin> row_id ` set (urls db)
             \<and> code' \<notin> short_code ` set (urls db)
             \<and> (al' \<noteq> None \<longrightarrow> al' \<notin> row_alias ` set (urls db))
             \<and> fits url)"
  using assms
  by (auto simp: insert_url_def Let_def split: if_splits sum.splits option.splits)

lemma insert_url_unique_violation:
  assumes "text_ok url" and "text_ok code" and "\<forall>a. al = Some a \<longrightarrow> text_ok a"
      and "varchar 10 code = Inr code'" and "varchar_null 30 al = Inr al'"
      and "int (urls_id_seq db) < INTEGER_MAX"
      and "urls_id_seq db + 1 \<in> set (map row_id (urls db))
           \<or> code' \<in> set (map short_code (urls db))
           \<or> (al' \<noteq> None \<and> al' \<in> set (map row_alias (urls db)))"
  shows "insert_url fits now url code al db
           = (Inl UniqueViolation, db\<lparr>urls_id_seq := urls_id_seq db + 1\<rparr>)"
  using assms by (auto simp: insert_url_def Let_def split: option.splits)

lemma insert_url_collision_fails:
  assumes "varchar 10 code = Inr code'" and "varchar_null 30 al = Inr al'"
      and "code' \<in> set (map short_code (urls db))
           \<or> (al' \<noteq> None \<and> al' \<in> set (map row_alias (urls db)))"
  shows "\<exists>e. fst (insert_url fits now url code al db) = Inl e"
  using assms by (auto simp: insert_url_def Let_def split: option.splits)

lemma insert_url_succeeds_iff:
  "(\<exists>r. fst (insert_url fits now url code al db) = Inr r) \<longleftrightarrow>
     text_ok url \<and> text_ok code \<and> (\<forall>a. al = Some a \<longrightarrow> text_ok a)
     \<and> (\<exists>code' al'. varchar 10 code = Inr code' \<and> varchar_null 30 al = Inr al'
           \<and> urls_id_seq db + 1 \<notin> set (map row_id (urls db))
           \<and> code' \<notin> set (map short_code (urls db))
           \<and> (al' \<noteq> None \<longrightarrow> al' \<notin> set (map row_alias (urls db))))
     \<and> int (urls_id_seq db) < INTEGER_MAX
     \<and> fits url"
  by (auto simp: insert_url_def Let_def split: option.splits sum.splits)

lemma insert_url_Inl_rows:
  "fst (insert_url fits now url code al db) = Inl e \<Longrightarrow>
     urls (snd (insert_url fits now url code al db)) = urls db"
  by (auto simp: insert_url_def Let_def split: option.splits sum.splits if_splits)


lemma bump_access_fields [simp]:
  "row_id (bump_access now r) = row_id r"
  "original_url (bump_access now r) = original_url r"
  "short_code (bump_access now r) = short_code r"
  "row_alias (bump_access now r) = row_alias r"
  "created_at (bump_access now r) = created_at r"
  "access_count (bump_access now r) = access_count r + 1"
  "last_accessed (bump_access now r) = Some now"
  by (simp_all add: bump_access_def)


lemma distinct_row_id_eq:
  assumes "distinct (map row_id xs)" and "r \<in> set xs" and "row \<in> set xs"
  shows "row_id r = row_id row \<longleftrightarrow> r = row"
  using assms by (auto simp: distinct_map dest: inj_onD)

lemma update_access_distinct:
  assumes "distinct (map row_id (urls db))" and "row \<in> set (urls db)"
  shows "update_access now (row_id row) db =
           (if access_count row < INTEGER_MAX
            then (Inr (), db\<lparr>urls := map (\<lambda>r. if r = row then bump_access now row else r) (urls db)\<rparr>)
            else (Inl NumericValueOutOfRange, db))"
proof -
  have 1: "(\<exists>r \<in> set (urls db). row_id r = row_id row \<and> access_count r + 1 > INTEGER_MAX)
             \<longleftrightarrow> \<not> access_count row < INTEGER_MAX"
    using distinct_row_id_eq [OF assms(1) _ assms(2)] assms(2) by auto
  have 2: "map (\<lambda>r. if row_id r = row_id row then bump_access now r else r) (urls db)
             = map (\<lambda>r. if r = row then bump_access now row else r) (urls db)"
    by (rule map_cong) (auto simp: distinct_row_id_eq [OF assms(1) _ assms(2)])
  show ?thesis
    unfolding update_access_def 1 2 by simp
qed

text \<open>With distinct rows, updating one row of a table leaves the rows around it.\<close>

lemma map_update_one:
  assumes "distinct (pre @ row # post)"
  shows "map (\<lambda>r. if r = row then f row else r) (pre @ row # post) = pre @ f row # post"
proof -
  from assms have "row \<notin> set pre" and "row \<notin> set post" by auto
  then have "map (\<lambda>r. if r = row then f row else r) pre = pre"
    and "map (\<lambda>r. if r = row then f row else r) post = post"
    by (auto intro!: map_idI)
  then show ?thesis by simp
qed


section \<open>Properties of the handlers\<close>

lemma or_null_not_empty: "or_null al \<noteq> Some []"
  by (simp add: or_null_def truthy_def split: option.splits)

lemma or_else_or_null: "or_else (or_null al) c = or_else al c"
  by (simp add: or_else_def or_null_def truthy_def split: option.splits)

lemma row_path_or_else: "or_else (row_alias r) (short_code r) = row_path r"
  by (simp add: or_else_def row_path_def)

text \<open>
  The lookups of \<open>POST /shorten\<close> in terms of the table: each fails exactly when its
  parameter is not valid text, and otherwise reports the first row that matches.
\<close>

lemma existing_url_response_Inl:
  "\<not> text_ok url \<Longrightarrow> existing_url_response baseUrl url db = Inl CharacterNotInRepertoire"
  by (simp add: existing_url_response_def select_by_original_url_def)

lemma existing_url_response_None:
  "existing_url_response baseUrl url db = Inr None \<longleftrightarrow>
     text_ok url \<and> (\<forall>r \<in> set (urls db). original_url r \<noteq> url)"
  by (auto simp: existing_url_response_def select_by_original_url_def filter_empty_conv Let_def
      split: list.splits dest: filter_ConsD)

lemma existing_url_response_first:
  assumes "text_ok url" and "urls db = pre @ row # post"
      and "\<forall>x \<in> set pre. original_url x \<noteq> url" and "original_url row = url"
  shows "existing_url_response baseUrl url db =
           Inr (Some (Json 200 (ShortUrlMessage url (baseUrl @ ''/'' @ row_path row)
                                  ''URL already exists'')))"
  using assms
  by (simp add: existing_url_response_def select_by_original_url_def filter_empty_conv
      row_path_or_else)

lemma existing_url_response_Some:
  assumes "existing_url_response baseUrl url db = Inr (Some res)"
  shows "\<exists>pre row post. urls db = pre @ row # post \<and> original_url row = url
           \<and> (\<forall>x \<in> set pre. original_url x \<noteq> url) \<and> text_ok url
           \<and> res = Json 200 (ShortUrlMessage url (baseUrl @ ''/'' @ row_path row)
                              ''URL already exists'')"
proof -
  from assms have ok: "text_ok url"
    by (auto simp: existing_url_response_def select_by_original_url_def split: if_splits)
  from assms ok obtain r where "r \<in> set (urls db)" "original_url r = url"
    by (auto simp: existing_url_response_def select_by_original_url_def filter_empty_conv
        split: list.splits dest: filter_ConsD)
  from first_match [of r "urls db" "\<lambda>x. original_url x = url", OF this]
  obtain pre row post where d: "urls db = pre @ row # post" "original_url row = url"
    "\<forall>x \<in> set pre. original_url x \<noteq> url"
    by blast
  from existing_url_response_first [OF ok d(1,3,2), of baseUrl] assms
  have "res = Json 200 (ShortUrlMessage url (baseUrl @ ''/'' @ row_path row)
                              ''URL already exists'')"
    by simp
  with d ok show ?thesis by blast
qed

lemma alias_taken_response_None:
  "alias_taken_response al db = Inr None \<longleftrightarrow>
     \<not> truthy al
     \<or> (\<exists>a. al = Some a \<and> text_ok a \<and> (\<forall>r \<in> set (urls db). row_alias r \<noteq> Some a))"
  by (auto simp: alias_taken_response_def select_by_alias_def truthy_def filter_empty_conv
      split: option.splits list.splits dest: filter_ConsD)

lemma alias_taken_response_Some:
  "alias_taken_response al db = Inr (Some res) \<longleftrightarrow>
     (\<exists>a. al = Some a \<and> a \<noteq> [] \<and> text_ok a \<and> (\<exists>r \<in> set (urls db). row_alias r = Some a))
     \<and> res = Json 409 (Error ''Alias already in use'')"
  by (auto simp: alias_taken_response_def select_by_alias_def filter_empty_conv
      split: option.splits list.splits dest: filter_ConsD)

lemma alias_taken_response_rows:
  "urls db' = urls db \<Longrightarrow> alias_taken_response al db' = alias_taken_response al db"
  by (simp add: alias_taken_response_def select_by_alias_def split: option.splits)

lemma existing_url_response_rows:
  "urls db' = urls db \<Longrightarrow>
     existing_url_response baseUrl url db' = existing_url_response baseUrl url db"
  by (simp add: existing_url_response_def select_by_original_url_def)

text \<open>
  The ways \<open>POST /shorten\<close> can end, the ways \<open>GET /:code\<close> can, and what each does to
  the rows.
\<close>

lemma post_shorten_existing:
  assumes "text_ok url" and "urls db = pre @ row # post"
      and "\<forall>x \<in> set pre. original_url x \<noteq> url" and "original_url row = url"
  shows "post_shorten fits baseUrl now url al db =
           (Json 200 (ShortUrlMessage url (baseUrl @ ''/'' @ row_path row) ''URL already exists''),
            db)"
  using existing_url_response_first [OF assms, of baseUrl]
  by (simp add: post_shorten_def post_shorten_steps_def Let_def)

lemma insert_response_cases:
  assumes "insert_response fits baseUrl now url (generateShortCode url 7) al db = (res, db')"
  shows "(res = Json 500 (Error ''Server error'') \<and> urls db' = urls db
            \<and> (db' = db \<or> db' = db\<lparr>urls_id_seq := urls_id_seq db + 1\<rparr>)
            \<and> (\<exists>e. fst (insert_url fits now url (generateShortCode url 7) (or_null al) db) = Inl e))
       \<or> (\<exists>al'. varchar_null 30 (or_null al) = Inr al'
            \<and> res = Json 201 (ShortUrl url (baseUrl @ ''/'' @ or_else al (generateShortCode url 7)))
            \<and> db' = \<lparr>urls = urls db @ [stored_row (urls_id_seq db + 1) now url
                                          (generateShortCode url 7) al'],
                      urls_id_seq = urls_id_seq db + 1\<rparr>
            \<and> fst (insert_url fits now url (generateShortCode url 7) (or_null al) db)
                = Inr (stored_row (urls_id_seq db + 1) now url (generateShortCode url 7) al'))"
proof -
  obtain ir db1 where
    i: "insert_url fits now url (generateShortCode url 7) (or_null al) db = (ir, db1)"
    by (cases "insert_url fits now url (generateShortCode url 7) (or_null al) db")
  from insert_url_cases [OF i] show ?thesis
  proof
    assume "\<exists>e. ir = Inl e \<and> (db1 = db \<or> db1 = db\<lparr>urls_id_seq := urls_id_seq db + 1\<rparr>)"
    with i assms show ?thesis
      by (auto simp: insert_response_def)
  next
    assume "\<exists>code' al'.
             varchar 10 (generateShortCode url 7) = Inr code' \<and> varchar_null 30 (or_null al) = Inr al'
             \<and> ir = Inr (stored_row (urls_id_seq db + 1) now url code' al')
             \<and> db1 = \<lparr>urls = urls db @ [stored_row (urls_id_seq db + 1) now url code' al'],
                       urls_id_seq = urls_id_seq db + 1\<rparr>
             \<and> text_ok url \<and> text_ok (generateShortCode url 7) \<and> (\<forall>a. or_null al = Some a \<longrightarrow> text_ok a)
             \<and> int (urls_id_seq db) < INTEGER_MAX
             \<and> urls_id_seq db + 1 \<notin> row_id ` set (urls db)
             \<and> code' \<notin> short_code ` set (urls db)
             \<and> (al' \<noteq> None \<longrightarrow> al' \<notin> row_alias ` set (urls db))
             \<and> fits url"
    then obtain code' al' where
      c: "varchar 10 (generateShortCode url 7) = Inr code'" "varchar_null 30 (or_null al) = Inr al'"
         "ir = Inr (stored_row (urls_id_seq db + 1) now url code' al')"
         "db1 = \<lparr>urls = urls db @ [stored_row (urls_id_seq db + 1) now url code' al'],
                       urls_id_seq = urls_id_seq db + 1\<rparr>"
      by blast
    from c(1) have "code' = generateShortCode url 7"
      by (simp add: varchar_generateShortCode)
    with c i assms show ?thesis
      by (auto simp: insert_response_def Let_def)
  qed
qed

lemma post_shorten_cases:
  assumes "post_shorten fits baseUrl now url al db = (res, db')"
  shows "(res = Json 500 (Error ''Server error'') \<and> urls db' = urls db
            \<and> (db' = db \<or> db' = db\<lparr>urls_id_seq := urls_id_seq db + 1\<rparr>))
       \<or> (\<exists>pre row post. urls db = pre @ row # post \<and> original_url row = url
            \<and> (\<forall>x \<in> set pre. original_url x \<noteq> url) \<and> text_ok url
            \<and> res = Json 200 (ShortUrlMessage url (baseUrl @ ''/'' @ row_path row)
                               ''URL already exists'')
            \<and> db' = db)
       \<or> (existing_url_response baseUrl url db = Inr None
            \<and> alias_taken_response al db = Inr (Some (Json 409 (Error ''Alias already in use'')))
            \<and> res = Json 409 (Error ''Alias already in use'') \<and> db' = db)
       \<or> (existing_url_response baseUrl url db = Inr None
            \<and> alias_taken_response al db = Inr None
            \<and> (\<exists>al'. varchar_null 30 (or_null al) = Inr al'
                 \<and> res = Json 201 (ShortUrl url (baseUrl @ ''/'' @ or_else al (generateShortCode url 7)))
                 \<and> db' = \<lparr>urls = urls db @ [stored_row (urls_id_seq db + 1) now url
                                               (generateShortCode url 7) al'],
                           urls_id_seq = urls_id_seq db + 1\<rparr>
                 \<and> fst (insert_url fits now url (generateShortCode url 7) (or_null al) db)
                     = Inr (stored_row (urls_id_seq db + 1) now url (generateShortCode url 7) al')))"
proof (cases "existing_url_response baseUrl url db")
  case (Inl e)
  with assms show ?thesis
    by (auto simp: post_shorten_def post_shorten_steps_def Let_def)
next
  case (Inr found)
  show ?thesis
  proof (cases found)
    case (Some r)
    with Inr existing_url_response_Some [of baseUrl url db r] assms show ?thesis
      by (auto simp: post_shorten_def post_shorten_steps_def Let_def)
  next
    case None
    note ex = Inr [unfolded None]
    show ?thesis
    proof (cases "alias_taken_response al db")
      case (Inl e)
      with ex assms show ?thesis
        by (auto simp: post_shorten_def post_shorten_steps_def Let_def)
    next
      case taken: (Inr t)
      show ?thesis
      proof (cases t)
        case (Some r)
        with taken have "r = Json 409 (Error ''Alias already in use'')"
          by (simp add: alias_taken_response_Some)
        with Some taken ex assms show ?thesis
          by (auto simp: post_shorten_def post_shorten_steps_def Let_def)
      next
        case None
        with taken ex assms
        have "insert_response fits baseUrl now url (generateShortCode url 7) al db = (res, db')"
          by (simp add: post_shorten_def post_shorten_steps_def Let_def)
        from insert_response_cases [OF this] None taken ex show ?thesis
          by auto
      qed
    qed
  qed
qed

lemma varchar_null_fits: "alias_fits al \<Longrightarrow> varchar_null 30 (or_null al) = Inr (or_null al)"
  by (auto simp: alias_fits_def varchar_null_def or_null_def varchar_fits split: option.splits)

lemma existing_url_response_status:
  "existing_url_response baseUrl url db = Inr (Some res) \<Longrightarrow>
     \<exists>s. res = Json 200 (ShortUrlMessage url s ''URL already exists'')"
  by (auto simp: existing_url_response_def Let_def split: sum.splits list.splits)

lemma post_shorten_201_iff:
  "(\<exists>s. fst (post_shorten fits baseUrl now url al db) = Json 201 (ShortUrl url s)) \<longleftrightarrow>
     existing_url_response baseUrl url db = Inr None
     \<and> alias_taken_response al db = Inr None
     \<and> (\<exists>r. fst (insert_url fits now url (generateShortCode url 7) (or_null al) db) = Inr r)"
proof (cases "existing_url_response baseUrl url db")
  case (Inl e)
  then show ?thesis by (simp add: post_shorten_def post_shorten_steps_def)
next
  case (Inr v)
  show ?thesis
  proof (cases v)
    case (Some res)
    with Inr existing_url_response_status [of baseUrl url db res] show ?thesis
      by (auto simp: post_shorten_def post_shorten_steps_def)
  next
    case None
    note e = Inr [unfolded None]
    show ?thesis
    proof (cases "alias_taken_response al db")
      case (Inl e')
      with e show ?thesis by (simp add: post_shorten_def post_shorten_steps_def)
    next
      case (Inr w)
      show ?thesis
      proof (cases w)
        case (Some res)
        with Inr have "res = Json 409 (Error ''Alias already in use'')"
          by (simp add: alias_taken_response_Some)
        with e Inr Some show ?thesis by (simp add: post_shorten_def post_shorten_steps_def)
      next
        case None
        obtain ir db' where
          i: "insert_url fits now url (generateShortCode url 7) (or_null al) db = (ir, db')"
          by (cases "insert_url fits now url (generateShortCode url 7) (or_null al) db")
        with e Inr None show ?thesis
          by (cases ir) (simp_all add: post_shorten_def post_shorten_steps_def
              insert_response_def Let_def)
      qed
    qed
  qed
qed

lemma post_shorten_created_iff:
  assumes "post_shorten fits baseUrl now url al db = (res, db')"
  shows "(\<exists>s. res = Json 201 (ShortUrl url s)) \<longleftrightarrow> urls db' \<noteq> urls db"
  using post_shorten_cases [OF assms] by auto

lemma post_shorten_seq:
  assumes "post_shorten fits baseUrl now url al db = (res, db')"
  shows "urls_id_seq db' = urls_id_seq db \<or> urls_id_seq db' = urls_id_seq db + 1"
  using post_shorten_cases [OF assms] by auto

lemma post_shorten_steps_catch:
  assumes "existing_url_response baseUrl url db0 = Inr None"
      and "alias_taken_response al db1 = Inr None"
      and "fst (insert_url fits now url (generateShortCode url 7) (or_null al) db2) = Inl e"
  shows "post_shorten_steps fits baseUrl now url al db0 db1 db2 =
           (Json 500 (Error ''Server error''),
            snd (insert_url fits now url (generateShortCode url 7) (or_null al) db2))"
  using assms
  by (cases "insert_url fits now url (generateShortCode url 7) (or_null al) db2")
     (simp add: post_shorten_steps_def insert_response_def Let_def)

lemma alias_reserved_conflict:
  assumes "a \<noteq> []" and "text_ok a" and "r \<in> set (urls db)" and "row_alias r = Some a"
      and "text_ok url" and "\<forall>x \<in> set (urls db). original_url x \<noteq> url"
  shows "post_shorten fits baseUrl now url (Some a) db
           = (Json 409 (Error ''Alias already in use''), db)"
proof -
  from assms(5,6) have "existing_url_response baseUrl url db = Inr None"
    by (simp add: existing_url_response_None)
  moreover from assms(1-4)
  have "alias_taken_response (Some a) db = Inr (Some (Json 409 (Error ''Alias already in use'')))"
    unfolding alias_taken_response_Some by auto
  ultimately show ?thesis
    by (simp add: post_shorten_def post_shorten_steps_def Let_def)
qed

lemma post_shorten_repeat:
  assumes "post_shorten fits baseUrl t1 url al db = (res1, db1)"
      and "res1 = Json 201 (ShortUrl url s) \<or> res1 = Json 200 (ShortUrlMessage url s ''URL already exists'')"
      and "alias_fits al"
  shows "post_shorten fits2 baseUrl t2 url al2 db1 =
           (Json 200 (ShortUrlMessage url s ''URL already exists''), db1)"
proof -
  from post_shorten_cases [OF assms(1)] assms(2)
  consider
    (existing) pre row post where "urls db = pre @ row # post" "original_url row = url"
      "\<forall>x \<in> set pre. original_url x \<noteq> url" "text_ok url"
      "s = baseUrl @ ''/'' @ row_path row" "db1 = db"
  | (created) al' where "existing_url_response baseUrl url db = Inr None"
      "varchar_null 30 (or_null al) = Inr al'"
      "s = baseUrl @ ''/'' @ or_else al (generateShortCode url 7)"
      "db1 = \<lparr>urls = urls db @ [stored_row (urls_id_seq db + 1) t1 url (generateShortCode url 7) al'],
              urls_id_seq = urls_id_seq db + 1\<rparr>"
    by (elim disjE exE conjE) auto
  then show ?thesis
  proof cases
    case existing
    from post_shorten_existing [OF existing(4,1,3,2)] existing(5,6) show ?thesis by simp
  next
    case created
    let ?r = "stored_row (urls_id_seq db + 1) t1 url (generateShortCode url 7) al'"
    from created(1) have ok: "text_ok url" and none: "\<forall>x \<in> set (urls db). original_url x \<noteq> url"
      by (simp_all add: existing_url_response_None)
    from created(2) assms(3) have al': "al' = or_null al"
      by (simp add: varchar_null_fits)
    have "urls db1 = urls db @ ?r # []" by (simp add: created(4))
    moreover have "original_url ?r = url" by (simp add: stored_row_def)
    ultimately have "post_shorten fits2 baseUrl t2 url al2 db1 =
           (Json 200 (ShortUrlMessage url (baseUrl @ ''/'' @ row_path ?r) ''URL already exists''), db1)"
      using ok none by (intro post_shorten_existing)
    moreover have "row_path ?r = or_else al (generateShortCode url 7)"
      unfolding row_path_or_else [symmetric] by (simp add: stored_row_def al' or_else_or_null)
    ultimately show ?thesis by (simp add: created(3))
  qed
qed


lemma get_stats_store: "snd (get_stats code db) = db"
  by (simp add: get_stats_def split: sum.splits list.splits)



section \<open>The invariant is kept\<close>

text \<open>
  The invariant holds in the empty store and every handler keeps it. Under it a URL has
  at most one record, since the short code is a function of the URL and unique.
\<close>

lemma store_inv_init: "store_inv init_db"
  by (simp add: store_inv_def constraints_ok_def init_db_def)

lemma store_inv_at_most_one:
  assumes "store_inv db"
  shows "length (filter (\<lambda>r. original_url r = url) (urls db)) \<le> 1"
proof -
  from assms have d: "distinct (map short_code (urls db))"
    and g: "\<forall>r \<in> set (urls db). short_code r = generateShortCode (original_url r) 7"
    by (simp_all add: store_inv_def constraints_ok_def)
  from g have "\<forall>r \<in> set (urls db). original_url r = url \<longrightarrow> short_code r = generateShortCode url 7"
    by auto
  with d show ?thesis
    by (rule filter_at_most_one)
qed

lemma store_inv_same_url:
  assumes "store_inv db" and "r \<in> set (urls db)" and "r' \<in> set (urls db)"
      and "original_url r = original_url r'"
  shows "r = r'"
proof -
  from assms(1) have d: "distinct (map short_code (urls db))"
    and g: "\<forall>r \<in> set (urls db). short_code r = generateShortCode (original_url r) 7"
    by (simp_all add: store_inv_def constraints_ok_def)
  from g assms(2-4) have "short_code r = short_code r'" by simp
  with d assms(2,3) show ?thesis
    by (auto simp: distinct_map dest: inj_onD)
qed

lemma store_inv_insert_url:
  assumes "store_inv db"
      and "insert_url fits now url (generateShortCode url 7) (or_null al) db = (res, db')"
  shows "store_inv db'"
proof -
  from insert_url_cases [OF assms(2)] show ?thesis
  proof
    assume "\<exists>e. res = Inl e \<and> (db' = db \<or> db' = db\<lparr>urls_id_seq := urls_id_seq db + 1\<rparr>)"
    with assms(1) show ?thesis
      by (auto simp: store_inv_def constraints_ok_def le_SucI)
  next
    assume "\<exists>code' al'.
             varchar 10 (generateShortCode url 7) = Inr code' \<and> varchar_null 30 (or_null al) = Inr al'
             \<and> res = Inr (stored_row (urls_id_seq db + 1) now url code' al')
             \<and> db' = \<lparr>urls = urls db @ [stored_row (urls_id_seq db + 1) now url code' al'],
                       urls_id_seq = urls_id_seq db + 1\<rparr>
             \<and> text_ok url \<and> text_ok (generateShortCode url 7)
             \<and> (\<forall>a. or_null al = Some a \<longrightarrow> text_ok a)
             \<and> int (urls_id_seq db) < INTEGER_MAX
             \<and> urls_id_seq db + 1 \<notin> row_id ` set (urls db)
             \<and> code' \<notin> short_code ` set (urls db)
             \<and> (al' \<noteq> None \<longrightarrow> al' \<notin> row_alias ` set (urls db))
             \<and> fits url"
    then obtain code' al' where
      c: "varchar 10 (generateShortCode url 7) = Inr code'" "varchar_null 30 (or_null al) = Inr al'"
         "db' = \<lparr>urls = urls db @ [stored_row (urls_id_seq db + 1) now url code' al'],
                       urls_id_seq = urls_id_seq db + 1\<rparr>"
         "text_ok url" "\<forall>a. or_null al = Some a \<longrightarrow> text_ok a"
         "urls_id_seq db + 1 \<notin> row_id ` set (urls db)"
         "code' \<notin> short_code ` set (urls db)"
         "al' \<noteq> None \<longrightarrow> al' \<notin> row_alias ` set (urls db)"
      by blast
    from c(1) have code': "code' = generateShortCode url 7"
      by (simp add: varchar_generateShortCode)
    have al_ok: "text_ok v \<and> v \<noteq> []" if "al' = Some v" for v
    proof -
      from that c(2) obtain a where a: "or_null al = Some a" "varchar 30 a = Inr v"
        by (auto simp: varchar_null_def split: option.splits sum.splits)
      from a(1) have "a \<noteq> []" using or_null_not_empty [of al] by auto
      moreover from a(1) c(5) have "text_ok a" by simp
      moreover have "(30::nat) = Suc 29" by simp
      ultimately show ?thesis
        using varchar_Inr(2,3) [of 29 a v] a(2) by simp
    qed
    let ?r = "stored_row (urls_id_seq db + 1) now url code' al'"
    have "constraints_ok db'"
      using assms(1) c(4,6,7,8) al_ok text_ok_generateShortCode [of url 7]
      unfolding store_inv_def constraints_ok_def c(3) code'
      by (auto simp: stored_row_def INTEGER_MAX_def)
    moreover have "\<forall>r \<in> set (urls db'). row_id r \<le> urls_id_seq db'"
      using assms(1) unfolding store_inv_def c(3) by (auto simp: stored_row_def le_SucI)
    moreover have "\<forall>r \<in> set (urls db'). short_code r = generateShortCode (original_url r) 7"
      using assms(1) unfolding store_inv_def c(3) code' by (auto simp: stored_row_def)
    moreover have "\<forall>r \<in> set (urls db'). row_alias r \<noteq> Some []"
      using assms(1) al_ok unfolding store_inv_def c(3) by (auto simp: stored_row_def)
    moreover have "\<forall>r \<in> set (urls db'). 0 \<le> access_count r"
      using assms(1) unfolding store_inv_def c(3) by (auto simp: stored_row_def)
    ultimately show ?thesis by (simp add: store_inv_def)
  qed
qed




lemma store_inv_insert_response:
  assumes "store_inv db"
  shows "store_inv (snd (insert_response fits baseUrl now url (generateShortCode url 7) al db))"
proof -
  obtain res db' where
    i: "insert_url fits now url (generateShortCode url 7) (or_null al) db = (res, db')"
    by (cases "insert_url fits now url (generateShortCode url 7) (or_null al) db")
  from store_inv_insert_url [OF assms i] have "store_inv db'" .
  with i show ?thesis by (cases res) (simp_all add: insert_response_def Let_def)
qed

lemma store_inv_post_shorten:
  assumes "store_inv db"
  shows "store_inv (snd (post_shorten fits baseUrl now url al db))"
  using assms store_inv_insert_response [OF assms]
  by (simp add: post_shorten_def post_shorten_steps_def Let_def split: option.splits sum.splits)


lemma post_shorten_again_rows:
  assumes inv: "store_inv db"
      and c1: "post_shorten fits baseUrl t1 url al db = (res1, db1)"
      and c2: "post_shorten fits baseUrl t2 url al db1 = (res2, db2)"
  shows "urls db2 = urls db1"
proof (rule ccontr)
  assume "urls db2 \<noteq> urls db1"
  with post_shorten_created_iff [OF c2] c2
  have "\<exists>s. fst (post_shorten fits baseUrl t2 url al db1) = Json 201 (ShortUrl url s)"
    by simp
  then have e1: "existing_url_response baseUrl url db1 = Inr None"
    and a1: "alias_taken_response al db1 = Inr None"
    and i1: "\<exists>r. fst (insert_url fits t2 url (generateShortCode url 7) (or_null al) db1) = Inr r"
    unfolding post_shorten_201_iff by simp_all
  from e1 have none1: "\<forall>r \<in> set (urls db1). original_url r \<noteq> url"
    by (simp add: existing_url_response_None)
  have rows: "urls db1 = urls db"
  proof (rule ccontr)
    assume "urls db1 \<noteq> urls db"
    with post_shorten_created_iff [OF c1] obtain s where "res1 = Json 201 (ShortUrl url s)"
      by blast
    with post_shorten_cases [OF c1] have "\<exists>r \<in> set (urls db1). original_url r = url"
      by (auto simp: stored_row_def)
    with none1 show False by blast
  qed
  from post_shorten_seq [OF c1]
  have seq: "urls_id_seq db \<le> urls_id_seq db1" by auto
  from inv have pk: "urls_id_seq db + 1 \<notin> set (map row_id (urls db))"
    by (auto simp: store_inv_def)
  from i1 rows seq pk
  have "\<exists>r. fst (insert_url fits t1 url (generateShortCode url 7) (or_null al) db) = Inr r"
    unfolding insert_url_succeeds_iff by auto
  moreover from e1 rows have "existing_url_response baseUrl url db = Inr None"
    by (simp add: existing_url_response_rows [of db1 db])
  moreover from a1 rows have "alias_taken_response al db = Inr None"
    by (simp add: alias_taken_response_rows [of db1 db])
  ultimately have "\<exists>s. fst (post_shorten fits baseUrl t1 url al db) = Json 201 (ShortUrl url s)"
    unfolding post_shorten_201_iff by simp
  with c1 post_shorten_created_iff [OF c1] rows show False by simp
qed

section \<open>The handlers on the example stores\<close>

text \<open>
  The example stores are what the handlers build from the empty store. \<open>run_collision\<close>
  is the handler running alone on a URL whose short code an earlier URL already holds,
  whatever the time and the state of the sequence below its bound.
\<close>

lemmas handler_defs =
  post_shorten_def post_shorten_steps_def existing_url_response_def alias_taken_response_def
  insert_response_def insert_url_def stored_row_def get_code_def get_stats_def update_access_def
  select_by_original_url_def select_by_alias_def select_by_alias_or_code_def
  text_ok_def varchar_def varchar_null_def utf8_length_def utf8_continuation_def
  truthy_def or_else_def or_null_def bump_access_def stats_of_def INTEGER_MAX_def Let_def
  fits_short_def

lemmas example_defs =
  init_db_def row_a_def row_b_def db_a_def db_ab_def row_max_def db_max_def
  row_s_def row_a2_def db_s_def db_sa_def row_c_def db_c_def row_p_def db_pa_def
  key_nul_def url_nul_def

lemma run_a:
  "post_shorten fits_short ''http://localhost:3000'' 100 ''https://example.com/a'' None init_db
     = (Json 201 (ShortUrl ''https://example.com/a'' ''http://localhost:3000/cd69b81''), db_a)"
  by (simp add: handler_defs example_defs short_code_url_a)

lemma run_a_again:
  "post_shorten fits_short ''http://localhost:3000'' 101 ''https://example.com/a'' None db_a
     = (Json 200 (ShortUrlMessage ''https://example.com/a'' ''http://localhost:3000/cd69b81''
                    ''URL already exists''), db_a)"
  by (simp add: handler_defs example_defs)

lemma run_ab:
  "post_shorten fits_short ''http://localhost:3000'' 200 ''https://example.com/b'' (Some ''promo'') db_a
     = (Json 201 (ShortUrl ''https://example.com/b'' ''http://localhost:3000/promo''), db_ab)"
  by (simp add: handler_defs example_defs short_code_url_b)

lemma run_ab_again:
  "post_shorten fits_short ''http://localhost:3000'' 201 ''https://example.com/b'' (Some ''promo'') db_ab
     = (Json 200 (ShortUrlMessage ''https://example.com/b'' ''http://localhost:3000/promo''
                    ''URL already exists''), db_ab)"
  by (simp add: handler_defs example_defs)

lemma run_s:
  "post_shorten fits_short ''http://localhost:3000'' 100 ''https://example.com/b'' (Some ''cd69b81'') init_db
     = (Json 201 (ShortUrl ''https://example.com/b'' ''http://localhost:3000/cd69b81''), db_s)"
  by (simp add: handler_defs example_defs short_code_url_b)

lemma run_sa:
  "post_shorten fits_short ''http://localhost:3000'' 200 ''https://example.com/a'' None db_s
     = (Json 201 (ShortUrl ''https://example.com/a'' ''http://localhost:3000/cd69b81''), db_sa)"
  by (simp add: handler_defs example_defs short_code_url_a)

lemma run_c:
  "post_shorten fits_short ''http://localhost:3000'' 100 ''https://example.com/1548'' None init_db
     = (Json 201 (ShortUrl ''https://example.com/1548'' ''http://localhost:3000/7f17b0c''), db_c)"
  by (simp add: handler_defs example_defs short_code_collision)

lemma run_collision:
  "int n < INTEGER_MAX \<Longrightarrow>
   post_shorten fits_short ''http://localhost:3000'' t ''https://example.com/2133'' None
     \<lparr>urls = [row_c], urls_id_seq = n\<rparr>
   = (Json 500 (Error ''Server error''), \<lparr>urls = [row_c], urls_id_seq = n + 1\<rparr>)"
  by (simp add: handler_defs example_defs short_code_collision)

lemma constraints_ok_db_ab: "constraints_ok db_ab"
  by (simp add: constraints_ok_def example_defs INTEGER_MAX_def text_ok_def)

lemma store_inv_db_a: "store_inv db_a"
  by (simp add: store_inv_def constraints_ok_def example_defs INTEGER_MAX_def text_ok_def
      short_code_url_a)


lemma store_inv_db_pa: "store_inv db_pa"
  by (simp add: store_inv_def constraints_ok_def example_defs INTEGER_MAX_def text_ok_def
      short_code_url_a short_code_url_b)

lemma get_code_times_count:
  "int k + int n \<le> INTEGER_MAX \<Longrightarrow>
     get_code_times n now ''cd69b81''
       \<lparr>urls = [row_a\<lparr>access_count := int k, last_accessed := l\<rparr>], urls_id_seq = 1\<rparr>
     = \<lparr>urls = [row_a\<lparr>access_count := int k + int n,
                       last_accessed := (if n = 0 then l else Some now)\<rparr>],
        urls_id_seq = 1\<rparr>"
proof (induction n arbitrary: k l)
  case 0
  then show ?case by simp
next
  case (Suc n)
  from Suc.prems have lt: "int k < INTEGER_MAX" by simp
  have step: "snd (get_code now ''cd69b81''
                \<lparr>urls = [row_a\<lparr>access_count := int k, last_accessed := l\<rparr>], urls_id_seq = 1\<rparr>)
              = \<lparr>urls = [row_a\<lparr>access_count := int (Suc k), last_accessed := Some now\<rparr>],
                 urls_id_seq = 1\<rparr>"
    using lt by (simp add: get_code_def select_by_alias_or_code_def update_access_def
        bump_access_def row_a_def text_ok_def)
  from Suc.prems have "int (Suc k) + int n \<le> INTEGER_MAX" by simp
  from Suc.IH [OF this, of "Some now"] step show ?case by simp
qed

lemma db_max_reached: "get_code_times 2147483647 900 ''cd69b81'' db_a = db_max"
  using get_code_times_count [of 0 2147483647 900 None]
  by (simp add: INTEGER_MAX_def db_a_def db_max_def row_max_def row_a_def)

section \<open>The claims\<close>

text \<open>
  C1, as the code has it. The two lookups of \<open>POST /shorten\<close> have found no record for
  the URL and none for the alias; when the \<open>INSERT\<close> then runs against a table that
  already holds the short code of the URL or the supplied alias (as it does after a
  concurrent request for the same URL got there first), the statement fails and the
  handler's \<open>catch\<close> block answers 500 \<open>Server error\<close>. No record is written and the
  table is not read again. When the alias fits its column and the id sequence is below
  its bound, the failure is the uniqueness violation, and only the id sequence has
  advanced.
\<close>

theorem insert_violation_surfaces_error:
  assumes "text_ok url" and "\<forall>r \<in> set (urls db0). original_url r \<noteq> url"
      and "\<forall>a. al = Some a \<and> a \<noteq> [] \<longrightarrow> text_ok a \<and> (\<forall>r \<in> set (urls db1). row_alias r \<noteq> Some a)"
      and "generateShortCode url 7 \<in> set (map short_code (urls db2))
           \<or> (truthy al \<and> alias_fits al \<and> al \<in> set (map row_alias (urls db2)))"
  shows "(\<exists>e. fst (insert_url fits now url (generateShortCode url 7) (or_null al) db2) = Inl e)
       \<and> fst (post_shorten_steps fits baseUrl now url al db0 db1 db2)
           = Json 500 (Error ''Server error'')
       \<and> urls (snd (post_shorten_steps fits baseUrl now url al db0 db1 db2)) = urls db2
       \<and> (alias_fits al \<and> int (urls_id_seq db2) < INTEGER_MAX \<longrightarrow>
            fst (insert_url fits now url (generateShortCode url 7) (or_null al) db2)
              = Inl UniqueViolation
            \<and> post_shorten_steps fits baseUrl now url al db0 db1 db2 =
                (Json 500 (Error ''Server error''), db2\<lparr>urls_id_seq := urls_id_seq db2 + 1\<rparr>))"
proof -
  let ?ins = "insert_url fits now url (generateShortCode url 7) (or_null al) db2"
  from assms(1,2) have e: "existing_url_response baseUrl url db0 = Inr None"
    by (simp add: existing_url_response_None)
  from assms(3) have a: "alias_taken_response al db1 = Inr None"
    unfolding alias_taken_response_None by (cases al) (auto simp: truthy_def)
  from assms(3) have ta: "\<forall>a. or_null al = Some a \<longrightarrow> text_ok a"
    by (auto simp: or_null_def truthy_def split: if_splits)
  have coll: "generateShortCode url 7 \<in> set (map short_code (urls db2))
           \<or> (al' \<noteq> None \<and> al' \<in> set (map row_alias (urls db2)))"
    if "varchar_null 30 (or_null al) = Inr al'" for al'
  proof -
    have "al' = al" if "truthy al" "alias_fits al"
    proof -
      from that(1) have "or_null al = al" by (simp add: or_null_def)
      with varchar_null_fits [OF that(2)] \<open>varchar_null 30 (or_null al) = Inr al'\<close>
      show ?thesis by simp
    qed
    with assms(4) show ?thesis by (auto simp: truthy_def)
  qed
  have fails: "\<exists>e. fst ?ins = Inl e"
  proof (cases "varchar_null 30 (or_null al)")
    case (Inl err)
    then show ?thesis
      by (auto simp: insert_url_def varchar_generateShortCode)
  next
    case (Inr al')
    from insert_url_collision_fails [OF varchar_generateShortCode Inr coll [OF Inr]]
    show ?thesis .
  qed
  then obtain err where err: "fst ?ins = Inl err" ..
  from post_shorten_steps_catch [OF e a err]
  have steps: "post_shorten_steps fits baseUrl now url al db0 db1 db2
                 = (Json 500 (Error ''Server error''), snd ?ins)" .
  have unique: "?ins = (Inl UniqueViolation, db2\<lparr>urls_id_seq := urls_id_seq db2 + 1\<rparr>)"
    if "alias_fits al" "int (urls_id_seq db2) < INTEGER_MAX"
  proof -
    from that(1) have v: "varchar_null 30 (or_null al) = Inr (or_null al)"
      by (rule varchar_null_fits)
    from coll [OF v]
    have "urls_id_seq db2 + 1 \<in> set (map row_id (urls db2))
           \<or> generateShortCode url 7 \<in> set (map short_code (urls db2))
           \<or> (or_null al \<noteq> None \<and> or_null al \<in> set (map row_alias (urls db2)))"
      by blast
    from insert_url_unique_violation
      [OF assms(1) text_ok_generateShortCode ta varchar_generateShortCode v that(2) this]
    show ?thesis .
  qed
  from fails steps insert_url_Inl_rows [OF err] unique show ?thesis
    by simp
qed

text \<open>
  The theorem at two requests for \<open>https://example.com/a\<close>: the lookups of the second
  see the empty store, its insert sees the record of the first.
\<close>

theorem insert_violation_surfaces_error_witness:
  "text_ok ''https://example.com/a''
   \<and> generateShortCode ''https://example.com/a'' 7 \<in> set (map short_code (urls db_a))
   \<and> alias_fits None \<and> int (urls_id_seq db_a) < INTEGER_MAX
   \<and> fst (insert_url fits_short 101 ''https://example.com/a''
            (generateShortCode ''https://example.com/a'' 7) (or_null None) db_a)
       = Inl UniqueViolation
   \<and> post_shorten_steps fits_short ''http://localhost:3000'' 101 ''https://example.com/a'' None
        init_db init_db db_a
       = (Json 500 (Error ''Server error''), \<lparr>urls = [row_a], urls_id_seq = 2\<rparr>)"
proof -
  have h1: "text_ok ''https://example.com/a''"
    by (simp add: text_ok_def)
  have h2: "\<forall>r \<in> set (urls init_db). original_url r \<noteq> ''https://example.com/a''"
    by (simp add: init_db_def)
  have h3: "\<forall>a. None = Some a \<and> a \<noteq> [] \<longrightarrow>
              text_ok a \<and> (\<forall>r \<in> set (urls init_db). row_alias r \<noteq> Some a)"
    by simp
  have h4: "generateShortCode ''https://example.com/a'' 7 \<in> set (map short_code (urls db_a))"
    by (simp add: short_code_url_a db_a_def row_a_def)
  then have h4': "generateShortCode ''https://example.com/a'' 7 \<in> set (map short_code (urls db_a))
           \<or> (truthy None \<and> alias_fits None \<and> None \<in> set (map row_alias (urls db_a)))"
    by simp
  have h5: "alias_fits None" "int (urls_id_seq db_a) < INTEGER_MAX"
    by (simp_all add: alias_fits_def db_a_def INTEGER_MAX_def)
  from insert_violation_surfaces_error
         [OF h1 h2 h3 h4', of fits_short 101 "''http://localhost:3000''"] h1 h4 h5
  show ?thesis by (simp add: db_a_def)
qed

text \<open>
  C1 as stated fails. Of two concurrent requests for the same URL the first answers 201;
  the second, whose lookups ran before the first one's insert, answers 500 instead of
  returning the record that now exists.
\<close>

theorem insert_race_counterexample:
  "post_shorten fits_short ''http://localhost:3000'' 100 ''https://example.com/a'' None init_db
     = (Json 201 (ShortUrl ''https://example.com/a'' ''http://localhost:3000/cd69b81''), db_a)
   \<and> post_shorten_steps fits_short ''http://localhost:3000'' 101 ''https://example.com/a'' None
        init_db init_db db_a
       = (Json 500 (Error ''Server error''), \<lparr>urls = [row_a], urls_id_seq = 2\<rparr>)"
  by (simp add: handler_defs example_defs short_code_url_a)

text \<open>
  C2, as the code has it. With the constraints of the table: when the key is valid text
  and no record has it as its alias or short code, \<open>GET /:code\<close> answers 404 and the
  store is unchanged; when the key contains the character U+0000 the lookup fails, the
  answer is 500 and the store is unchanged. Otherwise, for the first record of the table
  that has the key as its alias or short code: if its access count is below the largest
  \<open>INTEGER\<close> the handler redirects to its original URL, and the store differs in that
  record alone, whose access count is one higher and whose \<open>last_accessed\<close> is the
  current time; if the access count is already the largest \<open>INTEGER\<close> the \<open>UPDATE\<close>
  fails, the answer is 500 and the store is unchanged.
\<close>

theorem get_code_increments:
  assumes "constraints_ok db"
  shows "(text_ok code \<and> (\<forall>r \<in> set (urls db). row_alias r \<noteq> Some code \<and> short_code r \<noteq> code) \<longrightarrow>
            get_code now code db = (Json 404 (Error ''Short URL not found''), db))
       \<and> (\<not> text_ok code \<longrightarrow> get_code now code db = (Json 500 (Error ''Server error''), db))
       \<and> (\<forall>pre row post.
            urls db = pre @ row # post
            \<and> (\<forall>x \<in> set pre. row_alias x \<noteq> Some code \<and> short_code x \<noteq> code)
            \<and> (row_alias row = Some code \<or> short_code row = code) \<longrightarrow>
              (access_count row < INTEGER_MAX \<longrightarrow>
                 get_code now code db =
                   (Redirect (original_url row),
                    db\<lparr>urls := pre @ row\<lparr>access_count := access_count row + 1,
                                           last_accessed := Some now\<rparr> # post\<rparr>))
              \<and> (INTEGER_MAX \<le> access_count row \<longrightarrow>
                   get_code now code db = (Json 500 (Error ''Server error''), db)))"
proof (intro conjI allI impI)
  assume "text_ok code \<and> (\<forall>r \<in> set (urls db). row_alias r \<noteq> Some code \<and> short_code r \<noteq> code)"
  then have "select_by_alias_or_code code db = Inr []"
    by (simp add: select_by_alias_or_code_Nil)
  then show "get_code now code db = (Json 404 (Error ''Short URL not found''), db)"
    by (simp add: get_code_def)
next
  assume "\<not> text_ok code"
  then show "get_code now code db = (Json 500 (Error ''Server error''), db)"
    by (simp add: get_code_def select_by_alias_or_code_Inl)
next
  fix pre row post
  assume m: "urls db = pre @ row # post
            \<and> (\<forall>x \<in> set pre. row_alias x \<noteq> Some code \<and> short_code x \<noteq> code)
            \<and> (row_alias row = Some code \<or> short_code row = code)"
  from assms have d: "distinct (map row_id (urls db))"
    by (simp add: constraints_ok_def)
  then have "distinct (urls db)"
    by (simp add: distinct_map)
  with m have dx: "distinct (pre @ row # post)"
    by simp
  from m have row: "row \<in> set (urls db)" by simp
  with assms m have ok: "text_ok code"
    by (auto simp: constraints_ok_def)
  from select_by_alias_or_code_first [OF ok, of db pre row post] m
  obtain rest where sel: "select_by_alias_or_code code db = Inr (row # rest)"
    by blast
  note u = update_access_distinct [OF d row, of now]
  {
    assume lt: "access_count row < INTEGER_MAX"
    have "map (\<lambda>r. if r = row then bump_access now row else r) (urls db)
            = pre @ bump_access now row # post"
      using map_update_one [OF dx, of "bump_access now"] m by simp
    with sel u lt
    show "get_code now code db =
                   (Redirect (original_url row),
                    db\<lparr>urls := pre @ row\<lparr>access_count := access_count row + 1,
                                           last_accessed := Some now\<rparr> # post\<rparr>)"
      by (simp add: get_code_def bump_access_def)
  }
  {
    assume "INTEGER_MAX \<le> access_count row"
    with sel u show "get_code now code db = (Json 500 (Error ''Server error''), db)"
      by (simp add: get_code_def)
  }
qed

text \<open>
  The theorem on \<open>db_ab\<close>: an unknown key, a key with the character U+0000, and the
  second record resolved by its short code and by its alias.
\<close>

theorem get_code_increments_witness:
  "constraints_ok db_ab
   \<and> urls db_ab = [row_a] @ row_b # []
   \<and> short_code row_b = ''43cc12e'' \<and> row_alias row_b = Some ''promo''
   \<and> get_code 300 ''nope'' db_ab = (Json 404 (Error ''Short URL not found''), db_ab)
   \<and> get_code 300 key_nul db_ab = (Json 500 (Error ''Server error''), db_ab)
   \<and> get_code 300 ''43cc12e'' db_ab
       = (Redirect ''https://example.com/b'',
          \<lparr>urls = [row_a, row_b\<lparr>access_count := 1, last_accessed := Some 300\<rparr>], urls_id_seq = 2\<rparr>)
   \<and> get_code 300 ''promo'' db_ab
       = (Redirect ''https://example.com/b'',
          \<lparr>urls = [row_a, row_b\<lparr>access_count := 1, last_accessed := Some 300\<rparr>], urls_id_seq = 2\<rparr>)"
proof -
  note c = constraints_ok_db_ab
  have rows: "urls db_ab = [row_a] @ row_b # []"
    by (simp add: db_ab_def)
  have keys: "short_code row_b = ''43cc12e''" "row_alias row_b = Some ''promo''"
    by (simp_all add: row_b_def)
  have none: "text_ok ''nope''
      \<and> (\<forall>r \<in> set (urls db_ab). row_alias r \<noteq> Some ''nope'' \<and> short_code r \<noteq> ''nope'')"
    by (simp add: example_defs text_ok_def)
  have nul: "\<not> text_ok key_nul"
    by (simp add: text_ok_def key_nul_def)
  have pre1: "\<forall>x \<in> set [row_a]. row_alias x \<noteq> Some ''43cc12e'' \<and> short_code x \<noteq> ''43cc12e''"
    and pre2: "\<forall>x \<in> set [row_a]. row_alias x \<noteq> Some ''promo'' \<and> short_code x \<noteq> ''promo''"
    by (simp_all add: row_a_def)
  have lt: "access_count row_b < INTEGER_MAX"
    by (simp add: row_b_def INTEGER_MAX_def)
  have upd: "db_ab\<lparr>urls := [row_a] @ row_b\<lparr>access_count := access_count row_b + 1,
                                              last_accessed := Some 300\<rparr> # []\<rparr>
           = \<lparr>urls = [row_a, row_b\<lparr>access_count := 1, last_accessed := Some 300\<rparr>], urls_id_seq = 2\<rparr>"
    by (simp add: db_ab_def row_b_def)
  have url: "original_url row_b = ''https://example.com/b''"
    by (simp add: row_b_def)
  from get_code_increments [OF c, of "''nope''" 300] none
  have 1: "get_code 300 ''nope'' db_ab = (Json 404 (Error ''Short URL not found''), db_ab)"
    by blast
  from get_code_increments [OF c, of key_nul 300] nul
  have 2: "get_code 300 key_nul db_ab = (Json 500 (Error ''Server error''), db_ab)"
    by blast
  from get_code_increments [OF c, of "''43cc12e''" 300] rows pre1 keys(1) lt
  have "get_code 300 ''43cc12e'' db_ab =
          (Redirect (original_url row_b),
           db_ab\<lparr>urls := [row_a] @ row_b\<lparr>access_count := access_count row_b + 1,
                                             last_accessed := Some 300\<rparr> # []\<rparr>)"
    by blast
  with upd url have 3: "get_code 300 ''43cc12e'' db_ab
       = (Redirect ''https://example.com/b'',
          \<lparr>urls = [row_a, row_b\<lparr>access_count := 1, last_accessed := Some 300\<rparr>], urls_id_seq = 2\<rparr>)"
    by simp
  from get_code_increments [OF c, of "''promo''" 300] rows pre2 keys(2) lt
  have "get_code 300 ''promo'' db_ab =
          (Redirect (original_url row_b),
           db_ab\<lparr>urls := [row_a] @ row_b\<lparr>access_count := access_count row_b + 1,
                                             last_accessed := Some 300\<rparr> # []\<rparr>)"
    by blast
  with upd url have 4: "get_code 300 ''promo'' db_ab
       = (Redirect ''https://example.com/b'',
          \<lparr>urls = [row_a, row_b\<lparr>access_count := 1, last_accessed := Some 300\<rparr>], urls_id_seq = 2\<rparr>)"
    by simp
  from c rows keys 1 2 3 4 show ?thesis by blast
qed

text \<open>
  C2 as stated fails, in both halves. After 2147483647 resolutions of the record of
  \<open>db_a\<close>, the next request for its short code matches the record, yet it answers 500
  and leaves the access count as it is. And the key made of the character U+0000 matches
  no record of \<open>db_ab\<close>, yet the answer is 500, not 404.
\<close>

theorem get_code_overflow_counterexample:
  "get_code_times 2147483647 900 ''cd69b81'' db_a = db_max
   \<and> urls db_max = [row_max]
   \<and> short_code row_max = ''cd69b81''
   \<and> access_count row_max = 2147483647
   \<and> get_code 901 ''cd69b81'' db_max = (Json 500 (Error ''Server error''), db_max)
   \<and> key_nul \<notin> set (map short_code (urls db_ab))
   \<and> Some key_nul \<notin> set (map row_alias (urls db_ab))
   \<and> get_code 300 key_nul db_ab = (Json 500 (Error ''Server error''), db_ab)"
  using db_max_reached by (simp add: handler_defs example_defs)

text \<open>
  C3, as the code has it. Two successive \<open>POST /shorten\<close> requests for the same URL, with
  the same alias argument. When the first answers with a short URL (201 on creation, 200
  for a known URL) and the alias, if any, has at most 30 characters, the second answers
  200 \<open>URL already exists\<close> with the same short URL and changes nothing. 201 is answered
  exactly when a row was added, and after a request without alias the short URL ends in
  the generated short code. The path answered for a known URL is that of the first record
  of the table with this URL: its alias when that is set, and its short code otherwise.
  In a store that satisfies the invariant the second request never adds a row, and the
  URL has at most one record.
\<close>

theorem post_shorten_twice:
  assumes "post_shorten fits baseUrl t1 url al db = (res1, db1)"
      and "post_shorten fits baseUrl t2 url al db1 = (res2, db2)"
  shows "(alias_fits al \<longrightarrow>
            (\<forall>s. res1 = Json 201 (ShortUrl url s)
                  \<or> res1 = Json 200 (ShortUrlMessage url s ''URL already exists'')
               \<longrightarrow> res2 = Json 200 (ShortUrlMessage url s ''URL already exists'') \<and> db2 = db1))
       \<and> ((\<exists>s. res1 = Json 201 (ShortUrl url s)) \<longleftrightarrow> urls db1 \<noteq> urls db)
       \<and> (\<forall>s. al = None \<and> res1 = Json 201 (ShortUrl url s)
            \<longrightarrow> s = baseUrl @ ''/'' @ generateShortCode url 7)
       \<and> (\<forall>pre row post.
            text_ok url \<and> urls db1 = pre @ row # post
            \<and> (\<forall>x \<in> set pre. original_url x \<noteq> url) \<and> original_url row = url
            \<longrightarrow> res2 = Json 200 (ShortUrlMessage url
                          (baseUrl @ ''/'' @ (case row_alias row of
                                               None \<Rightarrow> short_code row
                                             | Some a \<Rightarrow> if a = [] then short_code row else a))
                          ''URL already exists''))
       \<and> (store_inv db
            \<longrightarrow> urls db2 = urls db1
                \<and> length (filter (\<lambda>r. original_url r = url) (urls db2)) \<le> 1)"
proof (intro conjI allI impI)
  fix s
  assume "alias_fits al"
    and "res1 = Json 201 (ShortUrl url s)
          \<or> res1 = Json 200 (ShortUrlMessage url s ''URL already exists'')"
  from post_shorten_repeat [OF assms(1) this(2,1), of fits t2 al] assms(2)
  show "res2 = Json 200 (ShortUrlMessage url s ''URL already exists'')" and "db2 = db1"
    by simp_all
next
  show "(\<exists>s. res1 = Json 201 (ShortUrl url s)) \<longleftrightarrow> urls db1 \<noteq> urls db"
    by (rule post_shorten_created_iff [OF assms(1)])
next
  fix s
  assume "al = None \<and> res1 = Json 201 (ShortUrl url s)"
  with post_shorten_cases [OF assms(1)]
  show "s = baseUrl @ ''/'' @ generateShortCode url 7"
    by (auto simp: or_else_def)
next
  fix pre row post
  assume "text_ok url \<and> urls db1 = pre @ row # post
            \<and> (\<forall>x \<in> set pre. original_url x \<noteq> url) \<and> original_url row = url"
  then have "post_shorten fits baseUrl t2 url al db1 =
           (Json 200 (ShortUrlMessage url (baseUrl @ ''/'' @ row_path row) ''URL already exists''),
            db1)"
    using post_shorten_existing [of url db1 pre row post fits baseUrl t2 al] by blast
  with assms(2)
  show "res2 = Json 200 (ShortUrlMessage url
                          (baseUrl @ ''/'' @ (case row_alias row of
                                               None \<Rightarrow> short_code row
                                             | Some a \<Rightarrow> if a = [] then short_code row else a))
                          ''URL already exists'')"
    by (simp add: row_path_def)
next
  assume inv: "store_inv db"
  from post_shorten_again_rows [OF inv assms] show "urls db2 = urls db1" .
  from store_inv_post_shorten [OF inv, of fits baseUrl t1 url al] assms(1)
  have "store_inv db1" by simp
  from store_inv_post_shorten [OF this, of fits baseUrl t2 url al] assms(2)
  have "store_inv db2" by simp
  then show "length (filter (\<lambda>r. original_url r = url) (urls db2)) \<le> 1"
    by (rule store_inv_at_most_one)
qed

text \<open>
  The theorem on \<open>db_a\<close>, for \<open>https://example.com/b\<close> with the alias \<open>promo\<close>: the
  record is the second of the table, and the path answered is its alias. And on the empty
  store, for \<open>https://example.com/a\<close> without alias: the path is the short code.
\<close>

theorem post_shorten_twice_witness:
  "post_shorten fits_short ''http://localhost:3000'' 200 ''https://example.com/b'' (Some ''promo'') db_a
     = (Json 201 (ShortUrl ''https://example.com/b'' ''http://localhost:3000/promo''), db_ab)
   \<and> post_shorten fits_short ''http://localhost:3000'' 201 ''https://example.com/b'' (Some ''promo'') db_ab
     = (Json 200 (ShortUrlMessage ''https://example.com/b'' ''http://localhost:3000/promo''
                    ''URL already exists''), db_ab)
   \<and> alias_fits (Some ''promo'')
   \<and> urls db_ab \<noteq> urls db_a
   \<and> urls db_ab = [row_a] @ row_b # []
   \<and> original_url row_a \<noteq> ''https://example.com/b''
   \<and> original_url row_b = ''https://example.com/b''
   \<and> row_alias row_b = Some ''promo''
   \<and> store_inv db_a
   \<and> length (filter (\<lambda>r. original_url r = ''https://example.com/b'') (urls db_ab)) \<le> 1
   \<and> post_shorten fits_short ''http://localhost:3000'' 100 ''https://example.com/a'' None init_db
     = (Json 201 (ShortUrl ''https://example.com/a'' ''http://localhost:3000/cd69b81''), db_a)
   \<and> post_shorten fits_short ''http://localhost:3000'' 101 ''https://example.com/a'' None db_a
     = (Json 200 (ShortUrlMessage ''https://example.com/a'' ''http://localhost:3000/cd69b81''
                    ''URL already exists''), db_a)
   \<and> ''http://localhost:3000/cd69b81''
       = ''http://localhost:3000'' @ ''/'' @ generateShortCode ''https://example.com/a'' 7"
proof -
  from post_shorten_twice [OF run_a run_a_again]
  have g: "''http://localhost:3000/cd69b81''
       = ''http://localhost:3000'' @ ''/'' @ generateShortCode ''https://example.com/a'' 7"
    by blast
  have f: "alias_fits (Some ''promo'')"
    by (simp add: alias_fits_def utf8_length_def utf8_continuation_def)
  have rows: "urls db_ab = [row_a] @ row_b # []"
    by (simp add: db_ab_def)
  have r: "original_url row_a \<noteq> ''https://example.com/b''"
    "original_url row_b = ''https://example.com/b''" "row_alias row_b = Some ''promo''"
    by (simp_all add: row_a_def row_b_def)
  from post_shorten_twice [OF run_ab run_ab_again] f rows r store_inv_db_a run_ab run_ab_again
    run_a run_a_again g
  show ?thesis by simp
qed

text \<open>
  C3 as stated fails. The URLs \<open>https://example.com/1548\<close> and
  \<open>https://example.com/2133\<close> have the same short code. With the first one stored, a
  request for the second one finds no record, fails at the insert and answers 500; so does
  the request repeated. Neither returns a short code or reports that the URL exists.
\<close>

theorem post_shorten_twice_counterexample:
  "post_shorten fits_short ''http://localhost:3000'' 100 ''https://example.com/1548'' None init_db
     = (Json 201 (ShortUrl ''https://example.com/1548'' ''http://localhost:3000/7f17b0c''), db_c)
   \<and> ''https://example.com/2133'' \<notin> set (map original_url (urls db_c))
   \<and> post_shorten fits_short ''http://localhost:3000'' 200 ''https://example.com/2133'' None db_c
     = (Json 500 (Error ''Server error''), \<lparr>urls = [row_c], urls_id_seq = 2\<rparr>)
   \<and> post_shorten fits_short ''http://localhost:3000'' 201 ''https://example.com/2133'' None
        \<lparr>urls = [row_c], urls_id_seq = 2\<rparr>
     = (Json 500 (Error ''Server error''), \<lparr>urls = [row_c], urls_id_seq = 3\<rparr>)"
  using run_c run_collision [of 1 200] run_collision [of 2 201]
  by (simp add: db_c_def row_c_def INTEGER_MAX_def)

text \<open>
  C4, as the code has it. When a request with a non-empty alias of at most 30 characters
  has created a record (answer 201), a later request with the same alias, for a URL
  without the character U+0000 that has no record, answers 409 \<open>Alias already in use\<close>
  and leaves the store unchanged. The second URL differs from the first by the
  assumption that it has no record.
\<close>

theorem alias_exclusive:
  assumes "a \<noteq> []" and "utf8_length a \<le> 30"
      and "post_shorten fits baseUrl t1 url1 (Some a) db = (Json 201 (ShortUrl url1 s), db1)"
      and "text_ok url2" and "\<forall>r \<in> set (urls db1). original_url r \<noteq> url2"
  shows "post_shorten fits2 baseUrl2 t2 url2 (Some a) db1
           = (Json 409 (Error ''Alias already in use''), db1)"
proof -
  from assms(1,2) have v: "varchar_null 30 (or_null (Some a)) = Inr (Some a)"
    using varchar_null_fits [of "Some a"] by (simp add: alias_fits_def or_null_def truthy_def)
  from post_shorten_cases [OF assms(3)] v
  have t: "alias_taken_response (Some a) db = Inr None"
    and db1: "db1 = \<lparr>urls = urls db @ [stored_row (urls_id_seq db + 1) t1 url1
                                          (generateShortCode url1 7) (Some a)],
                      urls_id_seq = urls_id_seq db + 1\<rparr>"
    by auto
  from t assms(1) have ok: "text_ok a"
    by (auto simp: alias_taken_response_None truthy_def)
  let ?r = "stored_row (urls_id_seq db + 1) t1 url1 (generateShortCode url1 7) (Some a)"
  have "?r \<in> set (urls db1)" by (simp add: db1)
  moreover have "row_alias ?r = Some a" by (simp add: stored_row_def)
  ultimately show ?thesis
    using alias_reserved_conflict [OF assms(1) ok _ _ assms(4,5)] by blast
qed

text \<open>The theorem on \<open>db_a\<close>, with the alias \<open>promo\<close>.\<close>

theorem alias_exclusive_witness:
  "''promo'' \<noteq> [] \<and> utf8_length ''promo'' \<le> 30
   \<and> post_shorten fits_short ''http://localhost:3000'' 200 ''https://example.com/b'' (Some ''promo'') db_a
     = (Json 201 (ShortUrl ''https://example.com/b'' ''http://localhost:3000/promo''), db_ab)
   \<and> text_ok ''https://example.com/c''
   \<and> ''https://example.com/c'' \<notin> set (map original_url (urls db_ab))
   \<and> post_shorten fits_short ''http://localhost:3000'' 300 ''https://example.com/c'' (Some ''promo'') db_ab
     = (Json 409 (Error ''Alias already in use''), db_ab)"
proof -
  have h1: "''promo'' \<noteq> []" by simp
  have h2: "utf8_length ''promo'' \<le> 30"
    by (simp add: utf8_length_def utf8_continuation_def)
  have h4: "text_ok ''https://example.com/c''"
    by (simp add: text_ok_def)
  have h5: "\<forall>r \<in> set (urls db_ab). original_url r \<noteq> ''https://example.com/c''"
    by (simp add: example_defs)
  have h5': "''https://example.com/c'' \<notin> set (map original_url (urls db_ab))"
    by (simp add: example_defs)
  from alias_exclusive [OF h1 h2 run_ab h4 h5, of fits_short "''http://localhost:3000''" 300]
    h1 h2 run_ab h4 h5'
  show ?thesis by simp
qed

text \<open>
  C4 as stated fails, in two ways. A request with the alias \<open>promo\<close> for a URL that
  already has a record succeeds with 200 and does not reserve the alias; the same alias
  is then granted to another URL, with 201. And once \<open>promo\<close> is reserved by a created
  record, a request with this alias for a URL that contains the character U+0000, which
  has no record and is not the first URL, answers 500, not 409: the lookup by URL has
  failed before the alias is looked at.
\<close>

theorem alias_exclusive_counterexample:
  "post_shorten fits_short ''http://localhost:3000'' 150 ''https://example.com/a'' (Some ''promo'') db_a
     = (Json 200 (ShortUrlMessage ''https://example.com/a'' ''http://localhost:3000/cd69b81''
                    ''URL already exists''), db_a)
   \<and> ''https://example.com/b'' \<noteq> ''https://example.com/a''
   \<and> ''https://example.com/b'' \<notin> set (map original_url (urls db_a))
   \<and> post_shorten fits_short ''http://localhost:3000'' 200 ''https://example.com/b'' (Some ''promo'') db_a
     = (Json 201 (ShortUrl ''https://example.com/b'' ''http://localhost:3000/promo''), db_ab)
   \<and> url_nul \<noteq> ''https://example.com/b''
   \<and> url_nul \<notin> set (map original_url (urls db_ab))
   \<and> post_shorten fits_short ''http://localhost:3000'' 300 url_nul (Some ''promo'') db_ab
     = (Json 500 (Error ''Server error''), db_ab)"
  by (simp add: handler_defs example_defs short_code_url_b)

text \<open>
  C5, as the code has it. The short code is the hexadecimal digest cut to the requested
  length, so it has exactly the requested number of characters when that number lies
  between 0 and 32; a larger request returns the whole digest of 32 characters and a
  negative one the empty string. No URL is treated specially.
\<close>

theorem generateShortCode_length:
  "generateShortCode url len = take (nat len) (md5_hex url)
   \<and> length (generateShortCode url len) = nat (min (max len 0) 32)"
  by (auto simp add: generateShortCode_take length_md5_hex min_def max_def)

text \<open>
  C5 as stated fails: asked for 40 characters, the generator returns the 32 characters of
  the digest.
\<close>

theorem generateShortCode_length_counterexample:
  "length (generateShortCode '''' 40) \<noteq> 40"
  by (simp add: generateShortCode_take length_md5_hex)

text \<open>
  C7, as the code has it. Both lookups use the query \<open>select_by_alias_or_code\<close>. Under
  the constraints of the table, a record is the only row found by its short code, and by
  its alias, when no other record has that key as its alias or short code; then
  \<open>GET /stats/:code\<close> returns this record and \<open>GET /:code\<close> redirects to its original
  URL (its access count being below the largest \<open>INTEGER\<close>).
\<close>

theorem lookup_by_either_key:
  assumes "constraints_ok db" and "r \<in> set (urls db)"
      and "key = short_code r \<or> row_alias r = Some key"
      and "\<forall>x \<in> set (urls db). x \<noteq> r \<longrightarrow> row_alias x \<noteq> Some key \<and> short_code x \<noteq> key"
  shows "select_by_alias_or_code key db = Inr [r]
       \<and> get_stats key db = (Json 200 (Stats (stats_of r)), db)
       \<and> (access_count r < INTEGER_MAX \<longrightarrow> fst (get_code now key db) = Redirect (original_url r))"
proof -
  from assms(1) have d: "distinct (map row_id (urls db))"
    by (simp add: constraints_ok_def)
  then have dx: "distinct (urls db)"
    by (simp add: distinct_map)
  from assms(1-3) have ok: "text_ok key"
    by (auto simp: constraints_ok_def)
  have "filter (\<lambda>x. row_alias x = Some key \<or> short_code x = key) (urls db)
          = filter (\<lambda>x. x = r) (urls db)"
    using assms(3,4) by (intro filter_cong) auto
  with filter_eq_single [OF dx assms(2)] ok
  have sel: "select_by_alias_or_code key db = Inr [r]"
    by (simp add: select_by_alias_or_code_def)
  then have "get_stats key db = (Json 200 (Stats (stats_of r)), db)"
    by (simp add: get_stats_def)
  moreover have "fst (get_code now key db) = Redirect (original_url r)" if "access_count r < INTEGER_MAX"
    using sel that update_access_distinct [OF d assms(2), of now]
    by (simp add: get_code_def)
  ultimately show ?thesis using sel by simp
qed

text \<open>The theorem on \<open>db_ab\<close>, for the record with the alias \<open>promo\<close>, by both keys.\<close>

theorem lookup_by_either_key_witness:
  "constraints_ok db_ab \<and> row_b \<in> set (urls db_ab)
   \<and> row_alias row_b = Some ''promo'' \<and> short_code row_b = ''43cc12e''
   \<and> select_by_alias_or_code ''promo'' db_ab = Inr [row_b]
   \<and> select_by_alias_or_code ''43cc12e'' db_ab = Inr [row_b]
   \<and> get_stats ''promo'' db_ab = (Json 200 (Stats (stats_of row_b)), db_ab)
   \<and> get_stats ''43cc12e'' db_ab = (Json 200 (Stats (stats_of row_b)), db_ab)
   \<and> fst (get_code 300 ''promo'' db_ab) = Redirect ''https://example.com/b''
   \<and> fst (get_code 300 ''43cc12e'' db_ab) = Redirect ''https://example.com/b''"
proof -
  note c = constraints_ok_db_ab
  have m: "row_b \<in> set (urls db_ab)"
    by (simp add: example_defs)
  have k1: "''promo'' = short_code row_b \<or> row_alias row_b = Some ''promo''"
    and k2: "''43cc12e'' = short_code row_b \<or> row_alias row_b = Some ''43cc12e''"
    by (simp_all add: example_defs)
  have o1: "\<forall>x \<in> set (urls db_ab). x \<noteq> row_b \<longrightarrow> row_alias x \<noteq> Some ''promo'' \<and> short_code x \<noteq> ''promo''"
    and o2: "\<forall>x \<in> set (urls db_ab). x \<noteq> row_b \<longrightarrow> row_alias x \<noteq> Some ''43cc12e'' \<and> short_code x \<noteq> ''43cc12e''"
    by (simp_all add: example_defs)
  have lt: "access_count row_b < INTEGER_MAX"
    by (simp add: example_defs INTEGER_MAX_def)
  have u: "original_url row_b = ''https://example.com/b''" "row_alias row_b = Some ''promo''"
    "short_code row_b = ''43cc12e''"
    by (simp_all add: example_defs)
  from lookup_by_either_key [OF c m k1 o1, of 300] lookup_by_either_key [OF c m k2 o2, of 300]
    c m lt u
  show ?thesis by simp
qed

text \<open>
  C7 as stated fails. The URL \<open>https://example.com/b\<close> is shortened with the alias
  \<open>cd69b81\<close>, which is the short code of \<open>https://example.com/a\<close>; then
  \<open>https://example.com/a\<close> is shortened. Both requests answer 201 with the same short
  URL, and the short code of the second record resolves to the first record. Were the
  two rows returned in the other order, the alias of the first record would resolve to
  the second: one of the two records is not reachable by its own key.
\<close>

theorem lookup_shadowed_counterexample:
  "post_shorten fits_short ''http://localhost:3000'' 100 ''https://example.com/b'' (Some ''cd69b81'') init_db
     = (Json 201 (ShortUrl ''https://example.com/b'' ''http://localhost:3000/cd69b81''), db_s)
   \<and> post_shorten fits_short ''http://localhost:3000'' 200 ''https://example.com/a'' None db_s
     = (Json 201 (ShortUrl ''https://example.com/a'' ''http://localhost:3000/cd69b81''), db_sa)
   \<and> row_a2 \<in> set (urls db_sa)
   \<and> short_code row_a2 = ''cd69b81''
   \<and> original_url row_a2 = ''https://example.com/a''
   \<and> fst (get_code 300 ''cd69b81'' db_sa) = Redirect ''https://example.com/b''
   \<and> fst (get_stats ''cd69b81'' db_sa) = Json 200 (Stats (stats_of row_s))
   \<and> row_alias row_s = Some ''cd69b81''
   \<and> original_url row_s = ''https://example.com/b''
   \<and> fst (get_code 300 ''cd69b81'' \<lparr>urls = [row_a2, row_s], urls_id_seq = 2\<rparr>)
       = Redirect ''https://example.com/a''"
  using run_s run_sa by (simp add: handler_defs example_defs)

text \<open>
  C8, as the code has it. \<open>GET /stats/:code\<close> never changes the store. When the key is
  valid text and no record has it as its alias or short code, it answers 404; when the
  key contains the character U+0000 the lookup fails and it answers 500. Otherwise it
  answers 200 with the original URL, short code, alias, creation time, access count and
  time of last access of the first record of the table that has the key as its alias or
  short code.
\<close>

theorem get_stats_read_only:
  "snd (get_stats code db) = db
   \<and> (text_ok code \<and> (\<forall>r \<in> set (urls db). row_alias r \<noteq> Some code \<and> short_code r \<noteq> code) \<longrightarrow>
        fst (get_stats code db) = Json 404 (Error ''URL not found''))
   \<and> (\<not> text_ok code \<longrightarrow> fst (get_stats code db) = Json 500 (Error ''Server error''))
   \<and> (\<forall>pre row post.
        text_ok code \<and> urls db = pre @ row # post
        \<and> (\<forall>x \<in> set pre. row_alias x \<noteq> Some code \<and> short_code x \<noteq> code)
        \<and> (row_alias row = Some code \<or> short_code row = code) \<longrightarrow>
          fst (get_stats code db) =
            Json 200 (Stats \<lparr>stats_original_url = original_url row,
                             stats_short_code = short_code row,
                             stats_alias = row_alias row, stats_created_at = created_at row,
                             stats_access_count = access_count row,
                             stats_last_accessed = last_accessed row\<rparr>))"
proof (intro conjI allI impI)
  show "snd (get_stats code db) = db"
    by (rule get_stats_store)
next
  assume "text_ok code \<and> (\<forall>r \<in> set (urls db). row_alias r \<noteq> Some code \<and> short_code r \<noteq> code)"
  then have "select_by_alias_or_code code db = Inr []"
    by (simp add: select_by_alias_or_code_Nil)
  then show "fst (get_stats code db) = Json 404 (Error ''URL not found'')"
    by (simp add: get_stats_def)
next
  assume "\<not> text_ok code"
  then show "fst (get_stats code db) = Json 500 (Error ''Server error'')"
    by (simp add: get_stats_def select_by_alias_or_code_Inl)
next
  fix pre row post
  assume m: "text_ok code \<and> urls db = pre @ row # post
        \<and> (\<forall>x \<in> set pre. row_alias x \<noteq> Some code \<and> short_code x \<noteq> code)
        \<and> (row_alias row = Some code \<or> short_code row = code)"
  then obtain rest where "select_by_alias_or_code code db = Inr (row # rest)"
    using select_by_alias_or_code_first [of code db pre row post] by blast
  then show "fst (get_stats code db) =
            Json 200 (Stats \<lparr>stats_original_url = original_url row,
                             stats_short_code = short_code row,
                             stats_alias = row_alias row, stats_created_at = created_at row,
                             stats_access_count = access_count row,
                             stats_last_accessed = last_accessed row\<rparr>)"
    by (simp add: get_stats_def stats_of_def)
qed

text \<open>
  The theorem on \<open>db_ab\<close>: the second record by its short code and by its alias, an
  unknown key, and a key with the character U+0000.
\<close>

theorem get_stats_read_only_witness:
  "snd (get_stats ''promo'' db_ab) = db_ab
   \<and> urls db_ab = [row_a] @ row_b # []
   \<and> fst (get_stats ''nope'' db_ab) = Json 404 (Error ''URL not found'')
   \<and> fst (get_stats key_nul db_ab) = Json 500 (Error ''Server error'')
   \<and> fst (get_stats ''43cc12e'' db_ab)
       = Json 200 (Stats \<lparr>stats_original_url = ''https://example.com/b'',
                          stats_short_code = ''43cc12e'', stats_alias = Some ''promo'',
                          stats_created_at = 200, stats_access_count = 0,
                          stats_last_accessed = None\<rparr>)
   \<and> fst (get_stats ''promo'' db_ab)
       = Json 200 (Stats \<lparr>stats_original_url = ''https://example.com/b'',
                          stats_short_code = ''43cc12e'', stats_alias = Some ''promo'',
                          stats_created_at = 200, stats_access_count = 0,
                          stats_last_accessed = None\<rparr>)"
proof -
  have rows: "urls db_ab = [row_a] @ row_b # []"
    by (simp add: db_ab_def)
  have none: "text_ok ''nope''
      \<and> (\<forall>r \<in> set (urls db_ab). row_alias r \<noteq> Some ''nope'' \<and> short_code r \<noteq> ''nope'')"
    by (simp add: example_defs text_ok_def)
  have nul: "\<not> text_ok key_nul"
    by (simp add: text_ok_def key_nul_def)
  have m1: "text_ok ''43cc12e'' \<and> urls db_ab = [row_a] @ row_b # []
        \<and> (\<forall>x \<in> set [row_a]. row_alias x \<noteq> Some ''43cc12e'' \<and> short_code x \<noteq> ''43cc12e'')
        \<and> (row_alias row_b = Some ''43cc12e'' \<or> short_code row_b = ''43cc12e'')"
    and m2: "text_ok ''promo'' \<and> urls db_ab = [row_a] @ row_b # []
        \<and> (\<forall>x \<in> set [row_a]. row_alias x \<noteq> Some ''promo'' \<and> short_code x \<noteq> ''promo'')
        \<and> (row_alias row_b = Some ''promo'' \<or> short_code row_b = ''promo'')"
    by (simp_all add: example_defs text_ok_def)
  have f: "original_url row_b = ''https://example.com/b''" "short_code row_b = ''43cc12e''"
    "row_alias row_b = Some ''promo''" "created_at row_b = 200" "access_count row_b = 0"
    "last_accessed row_b = None"
    by (simp_all add: row_b_def)
  from get_stats_read_only [of "''promo''" db_ab]
  have 0: "snd (get_stats ''promo'' db_ab) = db_ab" by blast
  from get_stats_read_only [of "''nope''" db_ab] none
  have 1: "fst (get_stats ''nope'' db_ab) = Json 404 (Error ''URL not found'')" by blast
  from get_stats_read_only [of key_nul db_ab] nul
  have 2: "fst (get_stats key_nul db_ab) = Json 500 (Error ''Server error'')" by blast
  from get_stats_read_only [of "''43cc12e''" db_ab] m1
  have "fst (get_stats ''43cc12e'' db_ab) =
            Json 200 (Stats \<lparr>stats_original_url = original_url row_b,
                             stats_short_code = short_code row_b,
                             stats_alias = row_alias row_b, stats_created_at = created_at row_b,
                             stats_access_count = access_count row_b,
                             stats_last_accessed = last_accessed row_b\<rparr>)"
    by blast
  with f have 3: "fst (get_stats ''43cc12e'' db_ab)
       = Json 200 (Stats \<lparr>stats_original_url = ''https://example.com/b'',
                          stats_short_code = ''43cc12e'', stats_alias = Some ''promo'',
                          stats_created_at = 200, stats_access_count = 0,
                          stats_last_accessed = None\<rparr>)"
    by simp
  from get_stats_read_only [of "''promo''" db_ab] m2
  have "fst (get_stats ''promo'' db_ab) =
            Json 200 (Stats \<lparr>stats_original_url = original_url row_b,
                             stats_short_code = short_code row_b,
                             stats_alias = row_alias row_b, stats_created_at = created_at row_b,
                             stats_access_count = access_count row_b,
                             stats_last_accessed = last_accessed row_b\<rparr>)"
    by blast
  with f have 4: "fst (get_stats ''promo'' db_ab)
       = Json 200 (Stats \<lparr>stats_original_url = ''https://example.com/b'',
                          stats_short_code = ''43cc12e'', stats_alias = Some ''promo'',
                          stats_created_at = 200, stats_access_count = 0,
                          stats_last_accessed = None\<rparr>)"
    by simp
  from 0 rows 1 2 3 4 show ?thesis by blast
qed

text \<open>
  C8 as stated fails: the key made of the character U+0000 matches no record of
  \<open>db_ab\<close>, yet the answer is 500 \<open>Server error\<close>, not 404.
\<close>

theorem get_stats_nul_counterexample:
  "key_nul \<notin> set (map short_code (urls db_ab))
   \<and> Some key_nul \<notin> set (map row_alias (urls db_ab))
   \<and> get_stats key_nul db_ab = (Json 500 (Error ''Server error''), db_ab)"
  by (simp add: handler_defs example_defs)



text \<open>
  C10. Under the constraints of the table, when the URL has a record, \<open>POST /shorten\<close>
  answers 200 \<open>URL already exists\<close> with the path of the first record of the table for
  this URL (its alias when that is set, its short code otherwise), whatever alias the
  request carries, and leaves the store unchanged: it never answers 409, and the record
  keeps the alias it had. In a store that satisfies the invariant the URL has one record
  only, and the path is that of this record.
\<close>

theorem existing_url_ignores_alias:
  assumes "constraints_ok db"
  shows "(\<forall>pre row post.
            urls db = pre @ row # post \<and> (\<forall>x \<in> set pre. original_url x \<noteq> url)
            \<and> original_url row = url \<longrightarrow>
              post_shorten fits baseUrl now url al db =
                (Json 200 (ShortUrlMessage url
                     (baseUrl @ ''/'' @ (case row_alias row of
                                          None \<Rightarrow> short_code row
                                        | Some a \<Rightarrow> if a = [] then short_code row else a))
                     ''URL already exists''), db))
       \<and> (store_inv db \<longrightarrow>
            (\<forall>r \<in> set (urls db). original_url r = url \<longrightarrow>
               post_shorten fits baseUrl now url al db =
                 (Json 200 (ShortUrlMessage url
                      (baseUrl @ ''/'' @ (case row_alias r of
                                           None \<Rightarrow> short_code r
                                         | Some a \<Rightarrow> if a = [] then short_code r else a))
                      ''URL already exists''), db)))"
proof -
  have first: "post_shorten fits baseUrl now url al db =
                (Json 200 (ShortUrlMessage url (baseUrl @ ''/'' @ row_path row)
                             ''URL already exists''), db)"
    if "urls db = pre @ row # post" "\<forall>x \<in> set pre. original_url x \<noteq> url" "original_url row = url"
    for pre row post
  proof -
    from that(1) have "row \<in> set (urls db)" by simp
    with assms that(3) have "text_ok url"
      by (auto simp: constraints_ok_def)
    from post_shorten_existing [OF this that] show ?thesis .
  qed
  have only: "post_shorten fits baseUrl now url al db =
                (Json 200 (ShortUrlMessage url (baseUrl @ ''/'' @ row_path r)
                             ''URL already exists''), db)"
    if "store_inv db" "r \<in> set (urls db)" "original_url r = url" for r
  proof -
    from first_match [of r "urls db" "\<lambda>x. original_url x = url"] that(2,3)
    obtain pre row post where d: "urls db = pre @ row # post" "original_url row = url"
      "\<forall>x \<in> set pre. original_url x \<noteq> url"
      by blast
    from d(1) have "row \<in> set (urls db)" by simp
    from store_inv_same_url [OF that(1,2) this] that(3) d(2) have "r = row" by simp
    with first [OF d(1,3,2)] show ?thesis by simp
  qed
  from first only show ?thesis
    unfolding row_path_def by blast
qed

text \<open>
  The theorem on \<open>db_pa\<close>: the record of \<open>https://example.com/a\<close> is the second of the
  table, and the request carries the alias \<open>promo\<close>, which the first record holds.
\<close>

theorem existing_url_ignores_alias_witness:
  "constraints_ok db_pa \<and> store_inv db_pa
   \<and> urls db_pa = [row_p] @ row_a2 # []
   \<and> original_url row_p \<noteq> ''https://example.com/a''
   \<and> row_alias row_p = Some ''promo''
   \<and> original_url row_a2 = ''https://example.com/a''
   \<and> row_alias row_a2 = None \<and> short_code row_a2 = ''cd69b81''
   \<and> post_shorten fits_short ''http://localhost:3000'' 300 ''https://example.com/a''
        (Some ''promo'') db_pa
       = (Json 200 (ShortUrlMessage ''https://example.com/a'' ''http://localhost:3000/cd69b81''
                      ''URL already exists''), db_pa)"
proof -
  from store_inv_db_pa have c: "constraints_ok db_pa"
    by (simp add: store_inv_def)
  have rows: "urls db_pa = [row_p] @ row_a2 # []"
    by (simp add: db_pa_def)
  have p: "\<forall>x \<in> set [row_p]. original_url x \<noteq> ''https://example.com/a''"
    "original_url row_p \<noteq> ''https://example.com/a''" "row_alias row_p = Some ''promo''"
    by (simp_all add: row_p_def)
  have r: "original_url row_a2 = ''https://example.com/a''" "row_alias row_a2 = None"
    "short_code row_a2 = ''cd69b81''"
    by (simp_all add: row_a2_def)
  from existing_url_ignores_alias
         [OF c, of "''https://example.com/a''" fits_short "''http://localhost:3000''" 300
            "Some ''promo''"] rows p(1) r(1)
  have "post_shorten fits_short ''http://localhost:3000'' 300 ''https://example.com/a''
          (Some ''promo'') db_pa =
                (Json 200 (ShortUrlMessage ''https://example.com/a''
                     (''http://localhost:3000'' @ ''/'' @ (case row_alias row_a2 of
                                          None \<Rightarrow> short_code row_a2
                                        | Some a \<Rightarrow> if a = [] then short_code row_a2 else a))
                     ''URL already exists''), db_pa)"
    by blast
  with c store_inv_db_pa rows p r show ?thesis by simp
qed

end
